theory Spec2Isabelle
  imports Complex_Main "HOL-Library.Sublist" "HOL-Library.Monad_Syntax"
begin

section \<open>JavaScript strings\<close>

text \<open>
  A string is a list of code units; the model covers the code units below 256 (ASCII and
  Latin-1), which is what \<^typ>\<open>char\<close> holds. On this range \<open>toLowerCase\<close> maps
  \<open>A\<close>..\<open>Z\<close> and the upper-case Latin-1 letters (192..222 without the multiplication sign
  215) to the code unit 32 above, and leaves every other code unit alone.
\<close>

definition toLowerChar :: "char \<Rightarrow> char" where
  "toLowerChar c =
     (let n = (of_char c :: nat)
      in if (65 \<le> n \<and> n \<le> 90) \<or> (192 \<le> n \<and> n \<le> 222 \<and> n \<noteq> 215)
         then char_of (n + 32) else c)"

definition toLowerCase :: "string \<Rightarrow> string" where
  "toLowerCase s = map toLowerChar s"

text \<open>\<open>s.includes(t)\<close>: \<open>t\<close> occurs in \<open>s\<close> as a contiguous substring.\<close>

fun includes_str :: "string \<Rightarrow> string \<Rightarrow> bool" where
  "includes_str [] t = (t = [])"
| "includes_str (c # cs) t = (prefix t (c # cs) \<or> includes_str cs t)"

text \<open>The class \<open>\s\<close> of a regular expression, on the code units below 256: tab, line
  feed, vertical tab, form feed, carriage return, space and the no-break space.\<close>

definition isWhitespace :: "char \<Rightarrow> bool" where
  "isWhitespace c = ((of_char c :: nat) \<in> {9, 10, 11, 12, 13, 32, 160})"

text \<open>\<open>s.replace(/\s+/g, '-')\<close>: every maximal run of whitespace becomes one hyphen.\<close>

function replaceWhitespaceRuns :: "string \<Rightarrow> string" where
  "replaceWhitespaceRuns [] = []"
| "replaceWhitespaceRuns (c # cs) =
     (if isWhitespace c then CHR ''-'' # replaceWhitespaceRuns (dropWhile isWhitespace cs)
      else c # replaceWhitespaceRuns cs)"
  by pat_completeness auto
termination
  by (relation "measure length") (auto simp: less_Suc_eq_le length_dropWhile_le)

text \<open>\<open>s.split(' ')\<close>: the pieces between single spaces; the empty string gives one empty
  piece.\<close>

fun splitSpace :: "string \<Rightarrow> string list" where
  "splitSpace [] = [[]]"
| "splitSpace (c # cs) =
     (if c = CHR '' '' then [] # splitSpace cs
      else (case splitSpace cs of [] \<Rightarrow> [[c]] | w # ws \<Rightarrow> (c # w) # ws))"

text \<open>\<open>s.trim()\<close>: whitespace removed at both ends.\<close>

definition trim :: "string \<Rightarrow> string" where
  "trim s = rev (dropWhile isWhitespace (rev (dropWhile isWhitespace s)))"

section \<open>Movies and content (\<open>types/movie.ts\<close>, \<open>types/content.ts\<close>, \<open>services/moviesApi\<close>)\<close>

record movie =
  title :: string
  videoURL :: string
  year :: int
  rating :: real
  duration :: string
  cast :: "string list"
  thumbnail :: string
  subtitleUrl :: "string option"
  description :: string

datatype content_type = MovieType | SeriesType

record content =
  c_id :: string
  c_title :: string
  c_description :: string
  c_imageUrl :: string
  c_videoUrl :: string
  c_type :: content_type
  c_year :: int
  c_rating :: "real option"
  c_genres :: "string list option"

definition mapMovieToContent :: "movie \<Rightarrow> content" where
  "mapMovieToContent m =
     \<lparr> c_id = replaceWhitespaceRuns (toLowerCase (title m)),
       c_title = title m,
       c_description = description m,
       c_imageUrl = thumbnail m,
       c_videoUrl = videoURL m,
       c_type = MovieType,
       c_year = year m,
       c_rating = Some (rating m),
       c_genres = Some [] \<rparr>"

text \<open>
  At run time the movies come from JSON and are not checked against the interface
  \<open>Movie\<close>. The initialiser of \<open>id\<close>, \<open>movie.title.toLowerCase().replace(/\s+/g, '-')\<close>,
  throws a \<open>TypeError\<close> when the value under \<open>title\<close> is undefined, null or any other
  value that is not a string; on a string neither method throws.
\<close>

datatype js_value = JsUndefined | JsNull | JsOther | JsString string

datatype js_error = TypeError


subsection \<open>The id as the specification words it\<close>









section \<open>Browser support detection (\<open>utils/browserSupport.ts\<close>)\<close>

text \<open>What \<open>detectBrowserSupport\<close> reads from the runtime: the user agent, the two global
  speech-recognition constructors, the media-capture API and the page's location.\<close>

record browser_env =
  userAgent :: string
  windowSpeechRecognition :: bool
  windowWebkitSpeechRecognition :: bool
  navigatorMediaDevices :: bool
  mediaDevicesGetUserMedia :: bool
  mediaRecorderInWindow :: bool
  locationProtocol :: string
  locationHostname :: string

datatype recommended_mode = native | server | polyfill

record BrowserSupportInfo =
  hasNativeSpeechRecognition :: bool
  hasMediaRecorder :: bool
  canUsePolyfill :: bool
  browserName :: string
  recommendedMode :: recommended_mode
  supportMessage :: string

definition detectBrowserName :: "string \<Rightarrow> string" where
  "detectBrowserName ua =
     (if includes_str ua ''chrome'' \<and> \<not> includes_str ua ''edg'' then ''Chrome''
      else if includes_str ua ''firefox'' then ''Firefox''
      else if includes_str ua ''safari'' \<and> \<not> includes_str ua ''chrome'' then ''Safari''
      else if includes_str ua ''edg'' then ''Edge''
      else if includes_str ua ''opera'' \<or> includes_str ua ''opr'' then ''Opera''
      else ''Unknown'')"

definition detectBrowserSupport :: "browser_env \<Rightarrow> BrowserSupportInfo" where
  "detectBrowserSupport env =
     (let ua = toLowerCase (userAgent env);
          name = detectBrowserName ua;
          hasNative = (windowSpeechRecognition env \<or> windowWebkitSpeechRecognition env);
          hasRecorder = (navigatorMediaDevices env \<and> mediaDevicesGetUserMedia env
                         \<and> mediaRecorderInWindow env);
          canPolyfill = (locationProtocol env = ''https:''
                         \<or> locationHostname env = ''localhost''
                         \<or> locationHostname env = ''127.0.0.1'');
          (mode, msg) =
             (if hasNative then
                (native, name @ '' has excellent native speech recognition support.'')
              else if hasRecorder \<and> canPolyfill then
                (server, name @ '' will use server-side speech recognition for best results.'')
              else if canPolyfill then
                (polyfill, name @ '' will use a JavaScript polyfill for speech recognition.'')
              else
                (polyfill, name @ '' has limited speech recognition support. Please use HTTPS or a supported browser.''))
      in \<lparr> hasNativeSpeechRecognition = hasNative,
           hasMediaRecorder = hasRecorder,
           canUsePolyfill = canPolyfill,
           browserName = name,
           recommendedMode = mode,
           supportMessage = msg \<rparr>)"

section \<open>Voice commands of the video player (\<open>VideoPlayer\<close>)\<close>

text \<open>The video element as far as the commands use it: whether it is paused, the playback
  position, and the log of the media operations called on it.\<close>

datatype media_op = VideoPlay | VideoPause | SetCurrentTime real

record video_element =
  paused :: bool
  currentTime :: real
  mediaOps :: "media_op list"

record player =
  videoRef :: "video_element option"
  isPlaying :: bool
  showSubtitles :: bool

datatype voice_command = play | pause | skipIntro | subtitlesOn | subtitlesOff

fun match :: "voice_command \<Rightarrow> string \<Rightarrow> bool" where
  "match play cmd = includes_str cmd ''play''"
| "match pause cmd = includes_str cmd ''pause''"
| "match skipIntro cmd = includes_str cmd ''skip intro''"
| "match subtitlesOn cmd = includes_str cmd ''subtitles on''"
| "match subtitlesOff cmd = includes_str cmd ''subtitles off''"

text \<open>\<open>action(video, setIsPlaying, setShowSubtitles)\<close>: the element is mutated in place, the
  two setters replace the component's state. The position is the value assigned by
  \<open>video.currentTime += 90\<close>; what the element does with a position past its end is the
  browser's and is not modelled.\<close>

fun action :: "voice_command \<Rightarrow> video_element \<Rightarrow> player \<Rightarrow> player" where
  "action play v p =
     p\<lparr>videoRef := Some (v\<lparr>paused := False, mediaOps := mediaOps v @ [VideoPlay]\<rparr>),
       isPlaying := True\<rparr>"
| "action pause v p =
     p\<lparr>videoRef := Some (v\<lparr>paused := True, mediaOps := mediaOps v @ [VideoPause]\<rparr>),
       isPlaying := False\<rparr>"
| "action skipIntro v p =
     p\<lparr>videoRef := Some (v\<lparr>currentTime := currentTime v + 90,
                              mediaOps := mediaOps v @ [SetCurrentTime (currentTime v + 90)]\<rparr>)\<rparr>"
| "action subtitlesOn v p = p\<lparr>showSubtitles := True\<rparr>"
| "action subtitlesOff v p = p\<lparr>showSubtitles := False\<rparr>"

text \<open>\<open>Object.values(VOICE_COMMANDS)\<close>: the entries in the order the object literal lists
  them.\<close>

definition VOICE_COMMANDS :: "voice_command list" where
  "VOICE_COMMANDS = [play, pause, skipIntro, subtitlesOn, subtitlesOff]"

text \<open>The dispatch is traced: which predicates were evaluated and which actions ran.\<close>

datatype dispatch_event = Evaluated voice_command | Invoked voice_command

text \<open>\<open>Array.prototype.some\<close> with the callback of \<open>handleCommand\<close>: it stops at the first
  entry for which the callback returns true.\<close>

fun some_command :: "voice_command list \<Rightarrow> string \<Rightarrow> video_element \<Rightarrow> player
    \<Rightarrow> player \<times> dispatch_event list" where
  "some_command [] cmd v p = (p, [])"
| "some_command (c # cs) cmd v p =
     (if match c cmd then (action c v p, [Evaluated c, Invoked c])
      else (let (p', tr) = some_command cs cmd v p in (p', Evaluated c # tr)))"

definition handleCommand :: "string \<Rightarrow> player \<Rightarrow> player \<times> dispatch_event list" where
  "handleCommand command p =
     (case videoRef p of
        None \<Rightarrow> (p, [])
      | Some video \<Rightarrow> some_command VOICE_COMMANDS command video p)"

section \<open>The recognition adapter (\<open>SpeechRecognitionPolyfill\<close>)\<close>

datatype fallback_mode = Native | Server | Annyang

text \<open>The page around the adapter: the capability flags, whether \<open>window.annyang\<close> is
  defined, whether a script tag for it exists, and how the calls into the browser turn out
  (whether an injected script loads, whether it defines \<open>window.annyang\<close>, and the
  exception \<open>recognition.start()\<close> throws, if any).\<close>

record page =
  browser :: browser_env
  annyangDefined :: bool
  annyangScriptTag :: bool
  scriptLoads :: bool
  scriptDefinesAnnyang :: bool
  recognitionStartError :: "string option"

record options =
  continuous :: bool
  interimResults :: bool
  lang :: string

record recognition_obj =
  r_continuous :: bool
  r_interimResults :: bool
  r_lang :: string

datatype media_recorder = MediaRecorder

record adapter =
  opts :: options
  recognition :: "recognition_obj option"
  mediaRecorder :: "media_recorder option"
  isListening :: bool
  fallbackMode :: fallback_mode

text \<open>What a call does to the outside: the backend objects it constructs, the calls it
  makes on them, and the callbacks of the options it invokes (a callback that was not
  supplied is skipped by \<open>?.\<close>).\<close>

datatype effect =
    NewSpeechRecognition | RecognitionStart | RecognitionStop
  | GetUserMedia | NewMediaRecorder | MediaRecorderStop | StreamAudioToText
  | InjectAnnyangScript | AnnyangSetLanguage string | AnnyangAddCallback string
  | AnnyangStart bool | AnnyangPause
  | OnStart | OnEnd | OnError string

definition hasNativeSupport :: "page \<Rightarrow> bool" where
  "hasNativeSupport w =
     (windowSpeechRecognition (browser w) \<or> windowWebkitSpeechRecognition (browser w))"

definition hasMediaRecorderSupport :: "page \<Rightarrow> bool" where
  "hasMediaRecorderSupport w =
     (navigatorMediaDevices (browser w) \<and> mediaDevicesGetUserMedia (browser w)
      \<and> mediaRecorderInWindow (browser w))"

definition detectBestMode :: "page \<Rightarrow> fallback_mode" where
  "detectBestMode w =
     (if hasNativeSupport w then Native
      else if hasMediaRecorderSupport w then Server
      else Annyang)"

text \<open>The constructor: the field initialisers, the options, then \<open>detectBestMode\<close>.\<close>

definition new_adapter :: "page \<Rightarrow> options \<Rightarrow> adapter" where
  "new_adapter w os =
     \<lparr> opts = os, recognition = None, mediaRecorder = None, isListening = False,
       fallbackMode = detectBestMode w \<rparr>"

text \<open>The two backend starters return the adapter and page as they left them, what they
  did, and the exception they threw, if any.\<close>

definition startNativeRecognition :: "page \<Rightarrow> adapter
    \<Rightarrow> adapter \<times> page \<times> effect list \<times> string option" where
  "startNativeRecognition w a =
     (if \<not> hasNativeSupport w then
        (a, w, [], Some ''TypeError: SpeechRecognition is not a constructor'')
      else
        (let a' = a\<lparr>recognition := Some \<lparr> r_continuous = continuous (opts a),
                                           r_interimResults = interimResults (opts a),
                                           r_lang = lang (opts a) \<rparr>\<rparr>
         in (a', w, [NewSpeechRecognition, RecognitionStart], recognitionStartError w)))"

definition loadAnnyangScript :: "page \<Rightarrow> page \<times> effect list \<times> string option" where
  "loadAnnyangScript w =
     (if annyangScriptTag w then (w, [], None)
      else if scriptLoads w then
        (w\<lparr>annyangScriptTag := True, annyangDefined := scriptDefinesAnnyang w\<rparr>,
         [InjectAnnyangScript], None)
      else
        (w\<lparr>annyangScriptTag := True\<rparr>, [InjectAnnyangScript],
         Some ''Error: Failed to load annyang.js''))"

definition startAnnyangRecognition :: "page \<Rightarrow> adapter
    \<Rightarrow> adapter \<times> page \<times> effect list \<times> string option" where
  "startAnnyangRecognition w a =
     (let (w1, es, err) = (if \<not> annyangDefined w then loadAnnyangScript w else (w, [], None))
      in case err of
           Some e \<Rightarrow> (a, w1, es, Some e)
         | None \<Rightarrow>
             if annyangDefined w1 then
               (a, w1,
                es @ [AnnyangSetLanguage (if lang (opts a) = [] then ''en-US'' else lang (opts a)),
                      AnnyangAddCallback ''result'', AnnyangAddCallback ''error'',
                      AnnyangStart (continuous (opts a))],
                None)
             else (a, w1, es, Some ''Error: Failed to load annyang.js polyfill''))"

text \<open>\<open>start()\<close>. The \<open>switch\<close> has the cases \<open>native\<close> and \<open>annyang\<close> only: in mode
  \<open>server\<close> no case is taken.\<close>

definition start :: "page \<Rightarrow> adapter \<Rightarrow> adapter \<times> page \<times> effect list" where
  "start w a =
     (if isListening a then (a, w, [])
      else
        (let (a1, w1, es, err) =
               (case fallbackMode a of
                  Native \<Rightarrow> startNativeRecognition w a
                | Annyang \<Rightarrow> startAnnyangRecognition w a
                | Server \<Rightarrow> (a, w, [], None))
         in case err of
              None \<Rightarrow> (a1\<lparr>isListening := True\<rparr>, w1, es @ [OnStart])
            | Some e \<Rightarrow>
                (a1, w1, es @ [OnError (''Failed to start speech recognition: '' @ e)])))"

subsection \<open>The hook \<open>useVoiceControl\<close>\<close>

record hook =
  h_isListening :: bool
  h_error :: "string option"
  h_currentMode :: string
  speechRecognitionRef :: "adapter option"

text \<open>The callbacks the hook passes to the adapter.\<close>

fun callback :: "effect \<Rightarrow> hook \<Rightarrow> hook" where
  "callback OnStart h = h\<lparr>h_isListening := True, h_error := None\<rparr>"
| "callback (OnError m) h = h\<lparr>h_error := Some m, h_isListening := False\<rparr>"
| "callback OnEnd h = h\<lparr>h_isListening := False\<rparr>"
| "callback _ h = h"

text \<open>\<open>getCurrentMode()\<close> returns the mode as a string.\<close>

definition getCurrentMode :: "adapter \<Rightarrow> string" where
  "getCurrentMode a =
     (case fallbackMode a of Native \<Rightarrow> ''native'' | Server \<Rightarrow> ''server''
      | Annyang \<Rightarrow> ''annyang'')"

text \<open>The hook after its initialising effect, for the language option given
  (\<open>options.language || 'en-US'\<close>).\<close>

definition initializeSpeechRecognition :: "page \<Rightarrow> string \<Rightarrow> hook" where
  "initializeSpeechRecognition w language =
     (let a = new_adapter w \<lparr> continuous = True, interimResults = False,
                              lang = (if language = [] then ''en-US'' else language) \<rparr>
      in \<lparr> h_isListening = False, h_error = None, h_currentMode = getCurrentMode a,
           speechRecognitionRef = Some a \<rparr>)"

text \<open>\<open>startListening\<close>. \<open>start()\<close> catches what its backend throws and the callbacks of
  the hook do not throw, so the promise awaited here does not reject and the \<open>catch\<close>
  block is not entered. The callbacks invoked by \<open>start()\<close> update the state of the hook.\<close>

definition startListening :: "page \<Rightarrow> hook \<Rightarrow> hook \<times> page \<times> effect list" where
  "startListening w h =
     (case speechRecognitionRef h of
        None \<Rightarrow> (h\<lparr>h_error := Some ''Speech recognition not initialized''\<rparr>, w, [])
      | Some a \<Rightarrow>
          if h_isListening h then (h, w, [])
          else (let (a', w', es) = start w a
                in (fold callback es (h\<lparr>speechRecognitionRef := Some a'\<rparr>), w', es)))"

section \<open>The WAV encoder (\<open>SpeechRecognitionService.convertToWav\<close>)\<close>

text \<open>
  A sample of a \<open>Float32Array\<close> is a finite number, an infinity or NaN. The finite values
  of a 32-bit float are rationals with a 24-bit significand; widened to a double and
  multiplied by \<open>0x8000\<close> or \<open>0x7FFF\<close> they need at most 39 bits, so the double arithmetic
  of the source is exact on them and is modelled by the arithmetic of \<^typ>\<open>real\<close>.
\<close>

datatype number = Num real | PosInfinity | NegInfinity | NaN

definition SAMPLE_RATE :: nat where "SAMPLE_RATE = 16000"
definition BUFFER_SIZE :: nat where "BUFFER_SIZE = 4096"
definition CHANNELS :: nat where "CHANNELS = 1"

text \<open>\<open>Math.min(1, x)\<close> and \<open>Math.max(-1, x)\<close>.\<close>

fun math_min_1 :: "number \<Rightarrow> number" where
  "math_min_1 (Num r) = Num (min 1 r)"
| "math_min_1 PosInfinity = Num 1"
| "math_min_1 NegInfinity = NegInfinity"
| "math_min_1 NaN = NaN"

fun math_max_neg1 :: "number \<Rightarrow> number" where
  "math_max_neg1 (Num r) = Num (max (- 1) r)"
| "math_max_neg1 PosInfinity = PosInfinity"
| "math_max_neg1 NegInfinity = Num (- 1)"
| "math_max_neg1 NaN = NaN"

text \<open>\<open>s < 0 ? s * 0x8000 : s * 0x7FFF\<close>; a comparison with NaN is false.\<close>

fun scale :: "number \<Rightarrow> number" where
  "scale (Num s) = Num (if s < 0 then s * 32768 else s * 32767)"
| "scale PosInfinity = PosInfinity"
| "scale NegInfinity = NegInfinity"
| "scale NaN = NaN"

text \<open>Storing a number into an \<open>Int16Array\<close>: NaN and the infinities become 0, a finite
  number is truncated towards zero and reduced modulo \<open>2^16\<close> into the signed range.\<close>

definition trunc_zero :: "real \<Rightarrow> int" where
  "trunc_zero r = (if r < 0 then \<lceil>r\<rceil> else \<lfloor>r\<rfloor>)"

definition wrapInt16 :: "int \<Rightarrow> int" where
  "wrapInt16 n = (n + 32768) mod 65536 - 32768"

fun toInt16 :: "number \<Rightarrow> int" where
  "toInt16 (Num r) = wrapInt16 (trunc_zero r)"
| "toInt16 _ = 0"

definition toPcm :: "number \<Rightarrow> int" where
  "toPcm x = toInt16 (scale (math_max_neg1 (math_min_1 x)))"

text \<open>The \<open>DataView\<close> over the buffer: a write outside the buffer throws a
  \<open>RangeError\<close> (\<open>None\<close>). Multi-byte values are written little-endian, reduced modulo
  their width.\<close>

type_synonym bytes = "nat list"

definition setBytes :: "nat \<Rightarrow> bytes \<Rightarrow> bytes \<Rightarrow> bytes option" where
  "setBytes off bs buf =
     (if off + length bs \<le> length buf
      then Some (take off buf @ bs @ drop (off + length bs) buf) else None)"

definition setUint8 :: "nat \<Rightarrow> nat \<Rightarrow> bytes \<Rightarrow> bytes option" where
  "setUint8 off v buf = setBytes off [v mod 256] buf"

definition uint16LE :: "nat \<Rightarrow> bytes" where
  "uint16LE v = [v mod 256, v div 256 mod 256]"

definition uint32LE :: "nat \<Rightarrow> bytes" where
  "uint32LE v = [v mod 256, v div 256 mod 256, v div 65536 mod 256, v div 16777216 mod 256]"

definition int16LE :: "int \<Rightarrow> bytes" where
  "int16LE v = uint16LE (nat (v mod 65536))"

definition setUint16 :: "nat \<Rightarrow> nat \<Rightarrow> bytes \<Rightarrow> bytes option" where
  "setUint16 off v buf = setBytes off (uint16LE v) buf"

definition setUint32 :: "nat \<Rightarrow> nat \<Rightarrow> bytes \<Rightarrow> bytes option" where
  "setUint32 off v buf = setBytes off (uint32LE v) buf"

definition setInt16 :: "nat \<Rightarrow> int \<Rightarrow> bytes \<Rightarrow> bytes option" where
  "setInt16 off v buf = setBytes off (int16LE v) buf"

fun writeString :: "nat \<Rightarrow> string \<Rightarrow> bytes \<Rightarrow> bytes option" where
  "writeString offset [] buf = Some buf"
| "writeString offset (c # cs) buf =
     setUint8 offset (of_char c) buf \<bind> writeString (Suc offset) cs"

text \<open>The loop that writes the samples, from index \<open>i\<close> on.\<close>

fun writeSamples :: "nat \<Rightarrow> int list \<Rightarrow> bytes \<Rightarrow> bytes option" where
  "writeSamples i [] buf = Some buf"
| "writeSamples i (x # xs) buf = setInt16 (44 + i * 2) x buf \<bind> writeSamples (Suc i) xs"

definition convertToWav :: "number list \<Rightarrow> nat \<Rightarrow> bytes option" where
  "convertToWav audioData sampleRate =
     (let pcmData = map toPcm audioData;
          n = length pcmData;
          buffer = replicate (44 + n * 2) 0
      in writeString 0 ''RIFF'' buffer
         \<bind> setUint32 4 (36 + n * 2)
         \<bind> writeString 8 ''WAVE''
         \<bind> writeString 12 ''fmt ''
         \<bind> setUint32 16 16
         \<bind> setUint16 20 1
         \<bind> setUint16 22 1
         \<bind> setUint32 24 sampleRate
         \<bind> setUint32 28 (sampleRate * 2)
         \<bind> setUint16 32 2
         \<bind> setUint16 34 16
         \<bind> writeString 36 ''data''
         \<bind> setUint32 40 (n * 2)
         \<bind> writeSamples 0 pcmData)"

text \<open>Reading the fields back.\<close>

definition readUint16LE :: "bytes \<Rightarrow> nat" where
  "readUint16LE bs = bs ! 0 + 256 * bs ! 1"

definition readUint32LE :: "bytes \<Rightarrow> nat" where
  "readUint32LE bs = bs ! 0 + 256 * bs ! 1 + 65536 * bs ! 2 + 16777216 * bs ! 3"

definition readInt16LE :: "bytes \<Rightarrow> int" where
  "readInt16LE bs =
     (let u = int (readUint16LE bs) in if u < 32768 then u else u - 65536)"

section \<open>Streaming audio to text (\<open>SpeechRecognitionService.streamAudioToText\<close>)\<close>

text \<open>
  The handler of \<open>onaudioprocess\<close> runs on the event loop. It is suspended at
  \<open>await this.transcribeAudio(...)\<close> until the request settles, and other events are
  handled meanwhile; \<open>await this.convertToWav(...)\<close> resumes in a microtask, before any
  other event. So the events are: an audio buffer arrives, the pending request resolves
  with a text, the pending request fails (network error, a response that is not ok, a body
  that is not the expected JSON).
\<close>

datatype stream_event =
    AudioProcess "number list"
  | TranscribeResolved string
  | TranscribeRejected

record stream_state =
  isProcessing :: bool
  audioChunks :: "bytes list"
  inFlight :: "bytes list"
  transcriptions :: "string list"
  loggedErrors :: nat

definition stream_init :: stream_state where
  "stream_init = \<lparr> isProcessing = False, audioChunks = [], inFlight = [],
                   transcriptions = [], loggedErrors = 0 \<rparr>"

text \<open>A request that settles is the oldest one in flight; with none in flight no request
  can settle, and the event changes nothing.\<close>

fun stream_step :: "stream_state \<Rightarrow> stream_event \<Rightarrow> stream_state" where
  "stream_step s (AudioProcess inputData) =
     (if \<not> isProcessing s then
        (case convertToWav inputData SAMPLE_RATE of
           None \<Rightarrow> s\<lparr>loggedErrors := loggedErrors s + 1, isProcessing := False\<rparr>
         | Some wavBlob \<Rightarrow>
             (let chunks = audioChunks s @ [wavBlob]
              in if length chunks \<ge> 2
                 then s\<lparr>isProcessing := True, audioChunks := chunks,
                        inFlight := inFlight s @ [concat chunks]\<rparr>
                 else s\<lparr>audioChunks := chunks, isProcessing := False\<rparr>))
      else s)"
| "stream_step s (TranscribeResolved text) =
     (case inFlight s of
        [] \<Rightarrow> s
      | r # rs \<Rightarrow>
          s\<lparr>inFlight := rs,
            transcriptions :=
              (if trim text \<noteq> [] then transcriptions s @ [toLowerCase (trim text)]
               else transcriptions s),
            audioChunks := [],
            isProcessing := False\<rparr>)"
| "stream_step s TranscribeRejected =
     (case inFlight s of
        [] \<Rightarrow> s
      | r # rs \<Rightarrow> s\<lparr>inFlight := rs, loggedErrors := loggedErrors s + 1, isProcessing := False\<rparr>)"

definition stream_run :: "stream_event list \<Rightarrow> stream_state" where
  "stream_run evs = foldl stream_step stream_init evs"

text \<open>The guard of \<open>streamAudioToText\<close> as a property of a state: the flag is set exactly
  while one request is in flight.\<close>

definition stream_inv :: "stream_state \<Rightarrow> bool" where
  "stream_inv s =
     (if isProcessing s then length (inFlight s) = 1 else inFlight s = [])"

section \<open>Fetching the movies (\<open>fetchMovies\<close>) and the carousel (\<open>ContentCarousel\<close>)\<close>

text \<open>How the request to \<open>/api/movies\<close> turns out: \<open>fetch\<close> rejects, the response is
  not ok (status and status text), the body is not JSON, the JSON is not an array, or it
  is an array of movies.\<close>

datatype fetch_outcome =
    NetworkError
  | HttpError string string
  | InvalidJson
  | NotAnArray
  | Movies "movie list"

text \<open>The body of the \<open>try\<close> block of \<open>fetchMovies\<close>: \<open>Inl\<close> is the exception thrown.\<close>

fun fetchMovies_try :: "fetch_outcome \<Rightarrow> string + movie list" where
  "fetchMovies_try NetworkError = Inl ''TypeError: Failed to fetch''"
| "fetchMovies_try (HttpError status statusText) =
     Inl (''Failed to fetch movies: '' @ status @ '' '' @ statusText)"
| "fetchMovies_try InvalidJson = Inl ''SyntaxError: Unexpected token''"
| "fetchMovies_try NotAnArray = Inl ''Invalid response format: expected an array of movies''"
| "fetchMovies_try (Movies ms) = Inr ms"

text \<open>The \<open>catch\<close> block logs the exception and returns the empty list.\<close>

definition fetchMovies :: "fetch_outcome \<Rightarrow> movie list" where
  "fetchMovies outcome = (case fetchMovies_try outcome of Inl e \<Rightarrow> [] | Inr ms \<Rightarrow> ms)"

text \<open>The state of the carousel; \<open>retryPending\<close> is the timer set by \<open>setTimeout\<close> that
  will increment \<open>retryCount\<close>.\<close>

record carousel =
  items :: "content list"
  isLoading :: bool
  error :: "string option"
  retryCount :: nat
  retryPending :: bool

definition carousel_init :: carousel where
  "carousel_init = \<lparr> items = [], isLoading = True, error = None, retryCount = 0,
                     retryPending = False \<rparr>"

text \<open>\<open>(c.rating || 0)\<close>.\<close>

definition ratingOrZero :: "content \<Rightarrow> real" where
  "ratingOrZero c = (case c_rating c of None \<Rightarrow> 0 | Some r \<Rightarrow> r)"

text \<open>\<open>Array.prototype.sort\<close> is stable; with the comparator \<open>(a, b) => key b - key a\<close>
  it orders by descending key, which is the stable insertion sort on the negated key.\<close>

definition sortDescending :: "(content \<Rightarrow> 'k::{linorder, uminus}) \<Rightarrow> content list \<Rightarrow> content list" where
  "sortDescending key cs = sort_key (\<lambda>c. - key c) cs"

definition filterContent :: "string \<Rightarrow> content list \<Rightarrow> content list" where
  "filterContent query allContent =
     (if query \<noteq> [] then
        (let searchTerms = splitSpace (toLowerCase query)
         in if query = ''trending'' then take 10 (sortDescending ratingOrZero allContent)
            else if query = ''popular shows'' then take 10 (sortDescending ratingOrZero allContent)
            else if query = ''new releases'' then take 10 (sortDescending c_year allContent)
            else if query = ''action movies'' then allContent
            else filter (\<lambda>c. list_all (\<lambda>term.
                     includes_str (toLowerCase (c_title c)) term
                     \<or> includes_str (toLowerCase (c_description c)) term) searchTerms)
                   allContent)
      else allContent)"

text \<open>One run of the effect: \<open>fetchContent\<close> with the outcome of its request. Nothing in
  the \<open>try\<close> block throws on movies of the declared type and \<open>fetchMovies\<close> does not
  reject, so the \<open>catch\<close> block is not entered; \<open>finally\<close> clears \<open>isLoading\<close> on every
  path.\<close>

definition fetchContent :: "string \<Rightarrow> carousel \<Rightarrow> fetch_outcome \<Rightarrow> carousel" where
  "fetchContent query st outcome =
     (let st1 = st\<lparr>isLoading := True, error := None\<rparr>;
          movies = fetchMovies outcome
      in if length movies = 0 then
           (if retryCount st1 < 3 then st1\<lparr>retryPending := True, isLoading := False\<rparr>
            else st1\<lparr>error := Some ''No movies available.'', items := [], isLoading := False\<rparr>)
         else
           (let allContent = map mapMovieToContent movies;
                filteredContent = filterContent query allContent
            in if length filteredContent = 0 then
                 st1\<lparr>error := Some ''No results found for this category.'', items := [],
                     isLoading := False\<rparr>
               else st1\<lparr>items := filteredContent, isLoading := False\<rparr>))"

text \<open>What the component renders.\<close>

datatype view =
    Skeleton
  | ErrorBox string bool
  | Nothing
  | Carousel "content list"

definition render :: "carousel \<Rightarrow> view" where
  "render st =
     (if isLoading st then Skeleton
      else case error st of
             Some e \<Rightarrow> ErrorBox e (retryCount st < 3)
           | None \<Rightarrow> if items st = [] then Nothing else Carousel (items st))"

text \<open>The timer fires: \<open>setRetryCount(prev => prev + 1)\<close>.\<close>

definition retryTimerFires :: "carousel \<Rightarrow> carousel" where
  "retryTimerFires st = st\<lparr>retryCount := retryCount st + 1, retryPending := False\<rparr>"

text \<open>The effect depends on \<open>retryCount\<close>, so it runs again after a timer has fired. The
  component is driven by the outcomes of its successive requests; it stops when no timer is
  pending.\<close>

fun carousel_run :: "string \<Rightarrow> carousel \<Rightarrow> fetch_outcome list \<Rightarrow> carousel" where
  "carousel_run query st [] = st"
| "carousel_run query st (outcome # rest) =
     (let st' = fetchContent query st outcome
      in if retryPending st' then carousel_run query (retryTimerFires st') rest else st')"

text \<open>How many requests the component sends on its own for a given sequence of outcomes.\<close>

fun requests_sent :: "string \<Rightarrow> carousel \<Rightarrow> fetch_outcome list \<Rightarrow> nat" where
  "requests_sent query st [] = 0"
| "requests_sent query st (outcome # rest) =
     (let st' = fetchContent query st outcome
      in if retryPending st' then Suc (requests_sent query (retryTimerFires st') rest) else 1)"

section \<open>Example inputs\<close>

definition firefox_http :: browser_env where
  "firefox_http = \<lparr>userAgent = ''Mozilla/5.0 Gecko Firefox/120.0'', windowSpeechRecognition = False, windowWebkitSpeechRecognition = False, navigatorMediaDevices = True, mediaDevicesGetUserMedia = True, mediaRecorderInWindow = True, locationProtocol = ''http:'', locationHostname = ''example.com''\<rparr>"



definition video0 :: video_element where
  "video0 = \<lparr> paused = True, currentTime = 12, mediaOps = [] \<rparr>"

definition player0 :: player where
  "player0 = \<lparr> videoRef = Some video0, isPlaying = False, showSubtitles = False \<rparr>"

definition firefox_https :: browser_env where
  "firefox_https = \<lparr> userAgent = ''Mozilla/5.0 Gecko Firefox/120.0'',
     windowSpeechRecognition = False, windowWebkitSpeechRecognition = False,
     navigatorMediaDevices = True, mediaDevicesGetUserMedia = True,
     mediaRecorderInWindow = True, locationProtocol = ''https:'',
     locationHostname = ''example.com'' \<rparr>"

definition chrome_https :: browser_env where
  "chrome_https = \<lparr> userAgent = ''Mozilla/5.0 Chrome/120.0 Safari/537.36'',
     windowSpeechRecognition = False, windowWebkitSpeechRecognition = True,
     navigatorMediaDevices = True, mediaDevicesGetUserMedia = True,
     mediaRecorderInWindow = True, locationProtocol = ''https:'',
     locationHostname = ''example.com'' \<rparr>"

definition firefox_page :: page where
  "firefox_page = \<lparr> browser = firefox_https, annyangDefined = False, annyangScriptTag = False,
     scriptLoads = True, scriptDefinesAnnyang = True, recognitionStartError = None \<rparr>"

definition chrome_page :: page where
  "chrome_page = \<lparr> browser = chrome_https, annyangDefined = False, annyangScriptTag = False,
     scriptLoads = True, scriptDefinesAnnyang = True, recognitionStartError = None \<rparr>"

definition hook_options :: options where
  "hook_options = \<lparr> continuous = True, interimResults = False, lang = ''en-US'' \<rparr>"

definition movie_of_year :: "string \<Rightarrow> int \<Rightarrow> movie" where
  "movie_of_year t y = \<lparr> title = t, videoURL = ''/videos/'' @ t, year = y, rating = 7,
     duration = ''2h'', cast = [], thumbnail = ''/img/'' @ t, subtitleUrl = None,
     description = ''a film'' \<rparr>"

definition three_movies :: "movie list" where
  "three_movies = [movie_of_year ''Alpha'' 2020, movie_of_year ''Beta'' 2023,
                   movie_of_year ''Gamma'' 1999]"

definition five_samples :: "number list" where
  "five_samples = [Num 1, Num (- 1), Num (1 / 2), NaN, Num 3]"

definition two_buffers :: "stream_event list" where
  "two_buffers = [AudioProcess [Num 0, Num (1 / 2)], AudioProcess [Num 1, Num (- 1)]]"

definition later_buffers :: "number list list" where
  "later_buffers = [[Num (1 / 4)], [NaN, Num 0]]"


section \<open>Verified properties\<close>

subsection \<open>Mode detection\<close>

text \<open>
  Claim C1. For every runtime environment, hence for every combination of the three
  capability flags, \<open>detectBrowserSupport\<close> returns a value whose mode is one of native,
  server and polyfill, chosen in this order: a native constructor gives native; otherwise
  media recording together with a secure context gives server; otherwise polyfill. The
  message is the degraded one exactly when neither a native constructor nor a secure
  context is present. The function is total: it returns on every input.
\<close>

theorem detectBrowserSupport_policy:
  "recommendedMode (detectBrowserSupport env) =
     (if hasNativeSpeechRecognition (detectBrowserSupport env) then native
      else if hasMediaRecorder (detectBrowserSupport env) \<and> canUsePolyfill (detectBrowserSupport env)
        then server
      else polyfill)
   \<and> recommendedMode (detectBrowserSupport env) \<in> {native, server, polyfill}
   \<and> ((supportMessage (detectBrowserSupport env) =
         browserName (detectBrowserSupport env)
           @ '' has limited speech recognition support. Please use HTTPS or a supported browser.'')
        = (\<not> hasNativeSpeechRecognition (detectBrowserSupport env)
           \<and> \<not> canUsePolyfill (detectBrowserSupport env)))
   \<and> hasNativeSpeechRecognition (detectBrowserSupport env) =
       (windowSpeechRecognition env \<or> windowWebkitSpeechRecognition env)
   \<and> hasMediaRecorder (detectBrowserSupport env) =
       (navigatorMediaDevices env \<and> mediaDevicesGetUserMedia env \<and> mediaRecorderInWindow env)
   \<and> canUsePolyfill (detectBrowserSupport env) =
       (locationProtocol env = ''https:'' \<or> locationHostname env = ''localhost''
        \<or> locationHostname env = ''127.0.0.1'')"
  by (auto simp add: detectBrowserSupport_def Let_def)

theorem detectBrowserSupport_policy_witness:
  "\<not> hasNativeSpeechRecognition (detectBrowserSupport firefox_http)
   \<and> \<not> canUsePolyfill (detectBrowserSupport firefox_http)
   \<and> recommendedMode (detectBrowserSupport firefox_http) = polyfill
   \<and> supportMessage (detectBrowserSupport firefox_http) =
       ''Firefox has limited speech recognition support. Please use HTTPS or a supported browser.''"
proof -
  have name: "browserName (detectBrowserSupport firefox_http) = ''Firefox''"
    by code_simp
  have flags: "\<not> hasNativeSpeechRecognition (detectBrowserSupport firefox_http)"
    "\<not> canUsePolyfill (detectBrowserSupport firefox_http)"
    by code_simp+
  from detectBrowserSupport_policy [of firefox_http] flags name show ?thesis
    by simp
qed

subsection \<open>Content ids\<close>

























subsection \<open>Command dispatch\<close>

lemma some_command_first_match:
  assumes "\<forall>x \<in> set pre. \<not> match x cmd" and "match c cmd"
  shows "some_command (pre @ c # post) cmd v p
         = (action c v p, map Evaluated pre @ [Evaluated c, Invoked c])"
  using assms by (induction pre) auto

lemma some_command_no_match:
  assumes "\<forall>x \<in> set cs. \<not> match x cmd"
  shows "some_command cs cmd v p = (p, map Evaluated cs)"
  using assms by (induction cs) auto

lemma match_please_play: "match play ''please play the movie''"
  by simp

text \<open>
  Claim C2. With the video element mounted, dispatching \<open>please play the movie\<close> evaluates
  the predicate of play only, runs the play action once (one call of \<open>video.play()\<close>, the
  playing flag set) and runs no other action. In general, when the command list splits
  into entries that do not match, a first entry that matches, and the rest, exactly the
  predicates up to that entry are evaluated and only its action runs.
\<close>

theorem handleCommand_first_match_wins:
  "(videoRef p = Some v \<longrightarrow>
      handleCommand ''please play the movie'' p
        = (p\<lparr>videoRef := Some (v\<lparr>paused := False, mediaOps := mediaOps v @ [VideoPlay]\<rparr>),
             isPlaying := True\<rparr>,
           [Evaluated play, Invoked play]))
   \<and> (videoRef p = Some v \<and> VOICE_COMMANDS = pre @ c # post
        \<and> (\<forall>x \<in> set pre. \<not> match x cmd) \<and> match c cmd \<longrightarrow>
      handleCommand cmd p = (action c v p, map Evaluated pre @ [Evaluated c, Invoked c]))"
proof (intro conjI impI)
  assume v: "videoRef p = Some v"
  have "some_command ([] @ play # [pause, skipIntro, subtitlesOn, subtitlesOff])
          ''please play the movie'' v p
        = (action play v p, map Evaluated [] @ [Evaluated play, Invoked play])"
    by (rule some_command_first_match) (simp_all only: match_please_play set_simps ball_empty)
  with v show "handleCommand ''please play the movie'' p
        = (p\<lparr>videoRef := Some (v\<lparr>paused := False, mediaOps := mediaOps v @ [VideoPlay]\<rparr>),
             isPlaying := True\<rparr>,
           [Evaluated play, Invoked play])"
    by (simp add: handleCommand_def VOICE_COMMANDS_def)
next
  assume h: "videoRef p = Some v \<and> VOICE_COMMANDS = pre @ c # post
        \<and> (\<forall>x \<in> set pre. \<not> match x cmd) \<and> match c cmd"
  then have "some_command (pre @ c # post) cmd v p
        = (action c v p, map Evaluated pre @ [Evaluated c, Invoked c])"
    by (intro some_command_first_match) simp_all
  with h show "handleCommand cmd p = (action c v p, map Evaluated pre @ [Evaluated c, Invoked c])"
    by (simp add: handleCommand_def)
qed

theorem handleCommand_first_match_wins_witness:
  "videoRef player0 = Some video0
   \<and> VOICE_COMMANDS = [play] @ pause # [skipIntro, subtitlesOn, subtitlesOff]
   \<and> \<not> match play ''pause and subtitles on''
   \<and> match pause ''pause and subtitles on''
   \<and> match subtitlesOn ''pause and subtitles on''
   \<and> handleCommand ''pause and subtitles on'' player0
       = (action pause video0 player0, [Evaluated play, Evaluated pause, Invoked pause])
   \<and> handleCommand ''please play the movie'' player0
       = (\<lparr> videoRef = Some \<lparr> paused = False, currentTime = 12, mediaOps = [VideoPlay] \<rparr>,
             isPlaying = True, showSubtitles = False \<rparr>,
          [Evaluated play, Invoked play])"
proof -
  have a: "videoRef player0 = Some video0" by (simp add: player0_def)
  have b: "VOICE_COMMANDS = [play] @ pause # [skipIntro, subtitlesOn, subtitlesOff]"
    by (simp add: VOICE_COMMANDS_def)
  have c: "\<forall>x \<in> set [play]. \<not> match x ''pause and subtitles on''" by simp
  have d: "match pause ''pause and subtitles on''" by simp
  have e: "match subtitlesOn ''pause and subtitles on''" by simp
  from handleCommand_first_match_wins
         [of player0 video0 "[play]" pause "[skipIntro, subtitlesOn, subtitlesOff]"
             "''pause and subtitles on''"]
       a b c d e
  show ?thesis by (simp add: player0_def video0_def)
qed

text \<open>
  Claim C8. A transcript that contains none of \<open>play\<close>, \<open>pause\<close>, \<open>skip intro\<close>,
  \<open>subtitles on\<close> and \<open>subtitles off\<close> leaves the player as it was: the video element
  (paused flag, position, the log of media operations), the playing flag and the subtitle
  flag are unchanged, and no action is invoked.
\<close>

theorem handleCommand_no_match_unchanged:
  assumes "\<not> includes_str cmd ''play''" and "\<not> includes_str cmd ''pause''"
    and "\<not> includes_str cmd ''skip intro''" and "\<not> includes_str cmd ''subtitles on''"
    and "\<not> includes_str cmd ''subtitles off''"
  shows "fst (handleCommand cmd p) = p \<and> (\<forall>c. Invoked c \<notin> set (snd (handleCommand cmd p)))"
proof -
  have "\<forall>x \<in> set VOICE_COMMANDS. \<not> match x cmd"
    using assms by (simp add: VOICE_COMMANDS_def)
  then have "\<And>v. some_command VOICE_COMMANDS cmd v p = (p, map Evaluated VOICE_COMMANDS)"
    by (rule some_command_no_match)
  then show ?thesis
    by (auto simp: handleCommand_def split: option.splits)
qed

theorem handleCommand_no_match_unchanged_witness:
  "\<not> includes_str ''what time is it'' ''play'' \<and> \<not> includes_str ''what time is it'' ''pause''
   \<and> \<not> includes_str ''what time is it'' ''skip intro''
   \<and> \<not> includes_str ''what time is it'' ''subtitles on''
   \<and> \<not> includes_str ''what time is it'' ''subtitles off''
   \<and> fst (handleCommand ''what time is it'' player0) = player0
   \<and> (\<forall>c. Invoked c \<notin> set (snd (handleCommand ''what time is it'' player0)))"
proof -
  have h: "\<not> includes_str ''what time is it'' ''play''"
    "\<not> includes_str ''what time is it'' ''pause''"
    "\<not> includes_str ''what time is it'' ''skip intro''"
    "\<not> includes_str ''what time is it'' ''subtitles on''"
    "\<not> includes_str ''what time is it'' ''subtitles off''"
    by simp_all
  from handleCommand_no_match_unchanged [OF h, of player0] h show ?thesis by blast
qed

subsection \<open>Starting the adapter\<close>

text \<open>
  Claim C3. In mode server, \<open>start()\<close> on an adapter that is not listening takes no case
  of the \<open>switch\<close>: its only effect is the \<open>onStart\<close> callback, so no microphone stream is
  requested, no \<open>MediaRecorder\<close> is created (the field stays null) and no audio is
  submitted; the flag \<open>isListening\<close> becomes true. An adapter constructed where native
  recognition is absent and media recording is present is in this mode, and the hook
  that owns it reports listening after \<open>startListening\<close>.
\<close>

theorem start_server_mode_initialises_nothing:
  "(fallbackMode a = Server \<and> \<not> isListening a \<longrightarrow>
      start w a = (a\<lparr>isListening := True\<rparr>, w, [OnStart]))
   \<and> (\<not> hasNativeSupport w0 \<and> hasMediaRecorderSupport w0 \<longrightarrow>
        fallbackMode (new_adapter w0 os) = Server
        \<and> start w (new_adapter w0 os)
            = (\<lparr> opts = os, recognition = None, mediaRecorder = None, isListening = True,
                 fallbackMode = Server \<rparr>, w, [OnStart])
        \<and> h_isListening (fst (startListening w (initializeSpeechRecognition w0 language)))
        \<and> snd (snd (startListening w (initializeSpeechRecognition w0 language))) = [OnStart])"
  by (auto simp: start_def new_adapter_def detectBestMode_def startListening_def initializeSpeechRecognition_def getCurrentMode_def
       Let_def)

theorem start_server_mode_initialises_nothing_witness:
  "\<not> hasNativeSupport firefox_page \<and> hasMediaRecorderSupport firefox_page
   \<and> fallbackMode (new_adapter firefox_page hook_options) = Server
   \<and> \<not> isListening (new_adapter firefox_page hook_options)
   \<and> start firefox_page (new_adapter firefox_page hook_options)
       = (\<lparr> opts = hook_options, recognition = None, mediaRecorder = None,
            isListening = True, fallbackMode = Server \<rparr>, firefox_page, [OnStart])
   \<and> h_isListening (fst (startListening firefox_page (initializeSpeechRecognition firefox_page ''en-US'')))"
proof -
  have a: "\<not> hasNativeSupport firefox_page" "hasMediaRecorderSupport firefox_page"
    by (simp_all add: hasNativeSupport_def hasMediaRecorderSupport_def firefox_page_def
          firefox_https_def)
  have b: "\<not> isListening (new_adapter firefox_page hook_options)"
    by (simp add: new_adapter_def)
  from start_server_mode_initialises_nothing
         [of "new_adapter firefox_page hook_options" firefox_page firefox_page hook_options]
       a b
  show ?thesis by simp
qed

text \<open>
  Claim C6. \<open>start()\<close> on an adapter that is listening changes neither the adapter nor
  the page and has no effect at all: no backend is constructed and no error callback is
  invoked. So a second \<open>start()\<close> after one that left the adapter listening returns the
  state of the first. \<open>startListening\<close> of the hook is guarded in the same way.
\<close>

theorem start_while_listening_is_noop:
  "(isListening a \<longrightarrow> start w a = (a, w, []))
   \<and> (start w a = (a1, w1, es) \<and> isListening a1 \<longrightarrow> start w1 a1 = (a1, w1, []))
   \<and> (h_isListening h \<and> speechRecognitionRef h = Some a \<longrightarrow> startListening w h = (h, w, []))"
  by (simp add: start_def startListening_def)

theorem start_while_listening_is_noop_witness:
  "\<not> isListening (new_adapter chrome_page hook_options)
   \<and> start chrome_page (new_adapter chrome_page hook_options)
       = (\<lparr> opts = hook_options,
            recognition = Some \<lparr> r_continuous = True, r_interimResults = False,
                                r_lang = ''en-US'' \<rparr>,
            mediaRecorder = None, isListening = True, fallbackMode = Native \<rparr>,
          chrome_page, [NewSpeechRecognition, RecognitionStart, OnStart])
   \<and> start chrome_page (fst (start chrome_page (new_adapter chrome_page hook_options)))
       = (fst (start chrome_page (new_adapter chrome_page hook_options)), chrome_page, [])
   \<and> h_isListening (fst (startListening chrome_page (initializeSpeechRecognition chrome_page ''en-US'')))
   \<and> startListening chrome_page (fst (startListening chrome_page (initializeSpeechRecognition chrome_page ''en-US'')))
       = (fst (startListening chrome_page (initializeSpeechRecognition chrome_page ''en-US'')), chrome_page, [])"
proof -
  have n: "hasNativeSupport chrome_page"
    by (simp add: hasNativeSupport_def chrome_page_def chrome_https_def)
  have e: "recognitionStartError chrome_page = None"
    by (simp add: chrome_page_def)
  have s: "start chrome_page (new_adapter chrome_page hook_options)
       = (\<lparr> opts = hook_options,
            recognition = Some \<lparr> r_continuous = True, r_interimResults = False,
                                r_lang = ''en-US'' \<rparr>,
            mediaRecorder = None, isListening = True, fallbackMode = Native \<rparr>,
          chrome_page, [NewSpeechRecognition, RecognitionStart, OnStart])"
    using n e
    by (simp add: start_def new_adapter_def detectBestMode_def startNativeRecognition_def
          hook_options_def Let_def)
  have h: "fst (startListening chrome_page (initializeSpeechRecognition chrome_page ''en-US''))
       = \<lparr> h_isListening = True, h_error = None, h_currentMode = ''native'',
           speechRecognitionRef = Some \<lparr> opts = hook_options,
            recognition = Some \<lparr> r_continuous = True, r_interimResults = False,
                                r_lang = ''en-US'' \<rparr>,
            mediaRecorder = None, isListening = True, fallbackMode = Native \<rparr> \<rparr>"
    using n s by (simp add: startListening_def initializeSpeechRecognition_def getCurrentMode_def Let_def new_adapter_def detectBestMode_def hook_options_def)
  from start_while_listening_is_noop
         [of "fst (start chrome_page (new_adapter chrome_page hook_options))" chrome_page
             "fst (start chrome_page (new_adapter chrome_page hook_options))" chrome_page "[]"
             "fst (startListening chrome_page (initializeSpeechRecognition chrome_page ''en-US''))"]
       s h
  show ?thesis by (simp add: new_adapter_def)
qed

subsection \<open>The carousel query \<open>new releases\<close>\<close>

lemma length_filterContent_new_releases:
  "length (filterContent ''new releases'' cs) \<le> 10"
  by (simp add: filterContent_def)

lemma sorted_filterContent_new_releases:
  "sorted_wrt (\<lambda>a b. c_year a \<ge> c_year b) (filterContent ''new releases'' cs)"
proof -
  have "sorted (map (\<lambda>c. - c_year c) (sort_key (\<lambda>c. - c_year c) cs))"
    by (rule sorted_sort_key)
  then have "sorted_wrt (\<lambda>a b. c_year a \<ge> c_year b) (sort_key (\<lambda>c. - c_year c) cs)"
    by (simp add: sorted_map)
  then have "sorted_wrt (\<lambda>a b. c_year a \<ge> c_year b) (take 10 (sort_key (\<lambda>c. - c_year c) cs))"
    by (rule sorted_wrt_take)
  then show ?thesis by (simp add: filterContent_def sortDescending_def)
qed

lemma fetchContent_nonempty:
  "movies \<noteq> [] \<Longrightarrow> filterContent q (map mapMovieToContent movies) \<noteq> [] \<Longrightarrow>
   fetchContent q st (Movies movies)
     = st\<lparr>isLoading := False, error := None,
          items := filterContent q (map mapMovieToContent movies)\<rparr>"
  by (simp add: fetchContent_def fetchMovies_def Let_def)

lemma new_releases_three:
  assumes "map year movies = [2020, 2023, 1999]"
  shows "map c_year (filterContent ''new releases'' (map mapMovieToContent movies))
         = [2023, 2020, 1999]"
proof -
  from assms obtain a b c where m: "movies = [a, b, c]"
    and y: "year a = 2020" "year b = 2023" "year c = 1999"
    by (auto simp: map_eq_Cons_conv)
  show ?thesis
    by (simp add: m filterContent_def sortDescending_def mapMovieToContent_def y)
qed

text \<open>
  Claim C9. For the query \<open>new releases\<close>, movies with the years 2020, 2023, 1999 are
  displayed in the order 2023, 2020, 1999. For every non-empty movie list the displayed
  items are the first ten of the list sorted by descending year, so they are in descending
  order and at most ten; from the initial state the carousel holds at most ten items
  whatever the request returns.
\<close>

theorem new_releases_sorted_and_capped:
  "(map year movies = [2020, 2023, 1999] \<longrightarrow>
      map c_year (items (fetchContent ''new releases'' st (Movies movies))) = [2023, 2020, 1999]
      \<and> render (fetchContent ''new releases'' st (Movies movies))
          = Carousel (items (fetchContent ''new releases'' st (Movies movies))))
   \<and> (ms \<noteq> [] \<longrightarrow>
        items (fetchContent ''new releases'' st (Movies ms))
          = take 10 (sort_key (\<lambda>c. - c_year c) (map mapMovieToContent ms))
        \<and> length (items (fetchContent ''new releases'' st (Movies ms))) \<le> 10
        \<and> sorted_wrt (\<lambda>a b. c_year a \<ge> c_year b)
             (items (fetchContent ''new releases'' st (Movies ms))))
   \<and> length (items (fetchContent ''new releases'' carousel_init outcome)) \<le> 10"
proof (intro conjI impI)
  assume y: "map year movies = [2020, 2023, 1999]"
  then have ne: "movies \<noteq> []" by auto
  have f: "map c_year (filterContent ''new releases'' (map mapMovieToContent movies))
         = [2023, 2020, 1999]"
    using y by (rule new_releases_three)
  then have fne: "filterContent ''new releases'' (map mapMovieToContent movies) \<noteq> []"
    by auto
  show "map c_year (items (fetchContent ''new releases'' st (Movies movies))) = [2023, 2020, 1999]"
    by (simp add: fetchContent_nonempty [OF ne fne] f)
  show "render (fetchContent ''new releases'' st (Movies movies))
          = Carousel (items (fetchContent ''new releases'' st (Movies movies)))"
    using fne by (simp add: fetchContent_nonempty [OF ne fne] render_def)
next
  assume ne: "ms \<noteq> []"
  have "length (filterContent ''new releases'' (map mapMovieToContent ms)) = min (length ms) 10"
    by (simp add: filterContent_def sortDescending_def)
  with ne have "length (filterContent ''new releases'' (map mapMovieToContent ms)) \<noteq> 0"
    by (cases ms) simp_all
  then have fne: "filterContent ''new releases'' (map mapMovieToContent ms) \<noteq> []"
    by simp
  have i: "items (fetchContent ''new releases'' st (Movies ms))
           = filterContent ''new releases'' (map mapMovieToContent ms)"
    by (simp add: fetchContent_nonempty [OF ne fne])
  show "items (fetchContent ''new releases'' st (Movies ms))
          = take 10 (sort_key (\<lambda>c. - c_year c) (map mapMovieToContent ms))"
    by (simp add: i filterContent_def sortDescending_def)
  show "length (items (fetchContent ''new releases'' st (Movies ms))) \<le> 10"
    unfolding i by (rule length_filterContent_new_releases)
  show "sorted_wrt (\<lambda>a b. c_year a \<ge> c_year b)
             (items (fetchContent ''new releases'' st (Movies ms)))"
    unfolding i by (rule sorted_filterContent_new_releases)
next
  have "items (fetchContent ''new releases'' carousel_init outcome) = []
        \<or> items (fetchContent ''new releases'' carousel_init outcome)
            = filterContent ''new releases'' (map mapMovieToContent (fetchMovies outcome))"
    by (simp add: fetchContent_def Let_def carousel_init_def)
  then show "length (items (fetchContent ''new releases'' carousel_init outcome)) \<le> 10"
    using length_filterContent_new_releases by auto
qed

theorem new_releases_sorted_and_capped_witness:
  "map year three_movies = [2020, 2023, 1999]
   \<and> three_movies \<noteq> []
   \<and> map c_year (items (fetchContent ''new releases'' carousel_init (Movies three_movies)))
       = [2023, 2020, 1999]
   \<and> map c_title (items (fetchContent ''new releases'' carousel_init (Movies three_movies)))
       = [''Beta'', ''Alpha'', ''Gamma'']
   \<and> length (items (fetchContent ''new releases'' carousel_init (Movies three_movies))) \<le> 10"
proof -
  have y: "map year three_movies = [2020, 2023, 1999]"
    by (simp add: three_movies_def movie_of_year_def)
  have ne: "three_movies \<noteq> []"
    by (simp add: three_movies_def)
  have s: "map c_title (take 10 (sort_key (\<lambda>c. - c_year c) (map mapMovieToContent three_movies)))
           = [''Beta'', ''Alpha'', ''Gamma'']"
    by (simp add: three_movies_def movie_of_year_def mapMovieToContent_def)
  note t = new_releases_sorted_and_capped [of three_movies carousel_init three_movies NetworkError]
  from t y have a: "map c_year (items (fetchContent ''new releases'' carousel_init
      (Movies three_movies))) = [2023, 2020, 1999]"
    by blast
  from t ne have b: "items (fetchContent ''new releases'' carousel_init (Movies three_movies))
      = take 10 (sort_key (\<lambda>c. - c_year c) (map mapMovieToContent three_movies))"
    and c: "length (items (fetchContent ''new releases'' carousel_init (Movies three_movies)))
      \<le> 10"
    by blast+
  have d: "map c_title (items (fetchContent ''new releases'' carousel_init
      (Movies three_movies))) = [''Beta'', ''Alpha'', ''Gamma'']"
    unfolding b by (rule s)
  from y ne a d c show ?thesis by blast
qed

subsection \<open>Failed and empty fetches\<close>

lemma fetchMovies_failure: "fetchMovies_try outcome = Inl e \<Longrightarrow> fetchMovies outcome = []"
  by (simp add: fetchMovies_def)

lemma fetchContent_empty_retry:
  "fetchMovies outcome = [] \<Longrightarrow> retryCount st < 3 \<Longrightarrow>
   fetchContent q st outcome = st\<lparr>isLoading := False, error := None, retryPending := True\<rparr>"
  by (simp add: fetchContent_def Let_def)

lemma fetchContent_empty_exhausted:
  "fetchMovies outcome = [] \<Longrightarrow> \<not> retryCount st < 3 \<Longrightarrow>
   fetchContent q st outcome
     = st\<lparr>isLoading := False, error := Some ''No movies available.'', items := []\<rparr>"
  by (simp add: fetchContent_def Let_def)

lemma fetchContent_depends_on_movies:
  "fetchMovies o1 = fetchMovies o2 \<Longrightarrow> fetchContent q st o1 = fetchContent q st o2"
  by (simp add: fetchContent_def)

lemma four_empty_results:
  assumes "fetchMovies o1 = []" "fetchMovies o2 = []" "fetchMovies o3 = []" "fetchMovies o4 = []"
  shows "requests_sent q carousel_init (o1 # o2 # o3 # o4 # rest) = 4"
    and "carousel_run q carousel_init (o1 # o2 # o3 # o4 # rest)
         = \<lparr> items = [], isLoading = False, error = Some ''No movies available.'',
             retryCount = 3, retryPending = False \<rparr>"
  using assms
  by (simp_all add: fetchContent_def Let_def carousel_init_def retryTimerFires_def)

text \<open>
  Claim C5, as the code has it. A fetch that fails (the request rejects, the response is
  not ok, the body is not JSON or not an array) makes \<open>fetchMovies\<close> return the empty list,
  and the carousel handles it exactly as a successful empty result. On an empty list with
  fewer than three retries behind it the carousel sets no error and schedules an automatic
  retry; with three retries behind it, it shows \<open>No movies available.\<close> without the retry
  button, which is rendered only while the retry count is below three. A non-empty list
  schedules no retry. So four empty or failed results in a row cost four requests and end
  in that message.
\<close>

theorem fetch_failure_handled_as_empty_result:
  "(fetchMovies_try outcome = Inl e \<longrightarrow>
      fetchMovies outcome = [] \<and> fetchContent q st outcome = fetchContent q st (Movies []))
   \<and> (fetchMovies outcome = [] \<and> retryCount st < 3 \<longrightarrow>
        fetchContent q st outcome
          = st\<lparr>isLoading := False, error := None, retryPending := True\<rparr>)
   \<and> (fetchMovies outcome = [] \<and> \<not> retryCount st < 3 \<longrightarrow>
        fetchContent q st outcome
          = st\<lparr>isLoading := False, error := Some ''No movies available.'', items := []\<rparr>
        \<and> render (fetchContent q st outcome) = ErrorBox ''No movies available.'' False)
   \<and> (fetchMovies outcome \<noteq> [] \<longrightarrow>
        retryPending (fetchContent q st outcome) = retryPending st)
   \<and> (fetchMovies o1 = [] \<and> fetchMovies o2 = [] \<and> fetchMovies o3 = [] \<and> fetchMovies o4 = []
        \<longrightarrow>
        requests_sent q carousel_init (o1 # o2 # o3 # o4 # rest) = 4
        \<and> render (carousel_run q carousel_init (o1 # o2 # o3 # o4 # rest))
            = ErrorBox ''No movies available.'' False)"
proof (intro conjI impI)
  assume f: "fetchMovies_try outcome = Inl e"
  then show "fetchMovies outcome = []" by (rule fetchMovies_failure)
  then have "fetchMovies outcome = fetchMovies (Movies [])" by (simp add: fetchMovies_def)
  then show "fetchContent q st outcome = fetchContent q st (Movies [])"
    by (rule fetchContent_depends_on_movies)
next
  assume "fetchMovies outcome = [] \<and> retryCount st < 3"
  then show "fetchContent q st outcome
          = st\<lparr>isLoading := False, error := None, retryPending := True\<rparr>"
    by (simp add: fetchContent_empty_retry)
next
  assume h: "fetchMovies outcome = [] \<and> \<not> retryCount st < 3"
  then show e: "fetchContent q st outcome
          = st\<lparr>isLoading := False, error := Some ''No movies available.'', items := []\<rparr>"
    by (simp add: fetchContent_empty_exhausted)
  from h show "render (fetchContent q st outcome) = ErrorBox ''No movies available.'' False"
    by (simp add: e render_def)
next
  assume "fetchMovies outcome \<noteq> []"
  then show "retryPending (fetchContent q st outcome) = retryPending st"
    by (simp add: fetchContent_def Let_def)
next
  assume h: "fetchMovies o1 = [] \<and> fetchMovies o2 = [] \<and> fetchMovies o3 = [] \<and> fetchMovies o4 = []"
  then show "requests_sent q carousel_init (o1 # o2 # o3 # o4 # rest) = 4"
    by (intro four_empty_results) simp_all
  from h have "carousel_run q carousel_init (o1 # o2 # o3 # o4 # rest)
         = \<lparr> items = [], isLoading = False, error = Some ''No movies available.'',
             retryCount = 3, retryPending = False \<rparr>"
    by (intro four_empty_results) simp_all
  then show "render (carousel_run q carousel_init (o1 # o2 # o3 # o4 # rest))
            = ErrorBox ''No movies available.'' False"
    by (simp add: render_def)
qed

theorem fetch_failure_handled_as_empty_result_witness:
  "fetchMovies_try (HttpError ''500'' ''Internal Server Error'')
     = Inl ''Failed to fetch movies: 500 Internal Server Error''
   \<and> fetchMovies (HttpError ''500'' ''Internal Server Error'') = []
   \<and> retryCount carousel_init < 3
   \<and> fetchContent ''trending'' carousel_init (HttpError ''500'' ''Internal Server Error'')
       = \<lparr> items = [], isLoading = False, error = None, retryCount = 0, retryPending = True \<rparr>
   \<and> requests_sent ''trending'' carousel_init [NetworkError, InvalidJson, NotAnArray, Movies []] = 4
   \<and> render (carousel_run ''trending'' carousel_init
               [NetworkError, InvalidJson, NotAnArray, Movies []])
       = ErrorBox ''No movies available.'' False"
proof -
  have a: "fetchMovies_try (HttpError ''500'' ''Internal Server Error'')
     = Inl ''Failed to fetch movies: 500 Internal Server Error''"
    by simp
  have b: "retryCount carousel_init < 3" by (simp add: carousel_init_def)
  have c: "fetchMovies NetworkError = []" "fetchMovies InvalidJson = []"
    "fetchMovies NotAnArray = []" "fetchMovies (Movies []) = []"
    by (simp_all add: fetchMovies_def)
  note t = fetch_failure_handled_as_empty_result
    [of "HttpError ''500'' ''Internal Server Error''"
        "''Failed to fetch movies: 500 Internal Server Error''" "''trending''" carousel_init
        NetworkError InvalidJson NotAnArray "Movies []" "[]"]
  from t a have d: "fetchMovies (HttpError ''500'' ''Internal Server Error'') = []"
    by blast
  from t d b have e: "fetchContent ''trending'' carousel_init
       (HttpError ''500'' ''Internal Server Error'')
       = carousel_init\<lparr>isLoading := False, error := None, retryPending := True\<rparr>"
    by blast
  from t c have f: "requests_sent ''trending'' carousel_init
        [NetworkError, InvalidJson, NotAnArray, Movies []] = 4"
    and g: "render (carousel_run ''trending'' carousel_init
               [NetworkError, InvalidJson, NotAnArray, Movies []])
       = ErrorBox ''No movies available.'' False"
    by blast+
  have e': "carousel_init\<lparr>isLoading := False, error := None, retryPending := True\<rparr>
      = \<lparr> items = [], isLoading = False, error = None, retryCount = 0, retryPending = True \<rparr>"
    by (simp add: carousel_init_def)
  from a d b e [unfolded e'] f g show ?thesis by blast
qed

text \<open>
  Claim C5 as stated fails: after a network failure the carousel holds no error, renders
  nothing and has a retry pending; four network failures in a row are four requests; and
  the message after the retries comes without a retry action.
\<close>

theorem network_failure_retried_without_error_counterexample:
  "fetchContent [] carousel_init NetworkError
     = \<lparr> items = [], isLoading = False, error = None, retryCount = 0, retryPending = True \<rparr>
   \<and> render (fetchContent [] carousel_init NetworkError) = Nothing
   \<and> requests_sent [] carousel_init [NetworkError, NetworkError, NetworkError, NetworkError] = 4
   \<and> render (carousel_run [] carousel_init [Movies [], Movies [], Movies [], Movies []])
       = ErrorBox ''No movies available.'' False"
  by (simp add: fetchContent_def fetchMovies_def Let_def carousel_init_def retryTimerFires_def
        render_def)

subsection \<open>The WAV container\<close>

lemma length_uint16LE: "length (uint16LE v) = 2"
  by (simp add: uint16LE_def)

lemma length_uint32LE: "length (uint32LE v) = 4"
  by (simp add: uint32LE_def)

lemma length_int16LE: "length (int16LE v) = 2"
  by (simp add: int16LE_def length_uint16LE)

lemma setBytes_zeros:
  assumes "length pre = off" and "length bs \<le> m"
  shows "setBytes off bs (pre @ replicate m 0) = Some ((pre @ bs) @ replicate (m - length bs) 0)"
  using assms by (simp add: setBytes_def)

lemma writeString_zeros:
  assumes "length pre = off" and "length s \<le> m"
  shows "writeString off s (pre @ replicate m 0)
         = Some ((pre @ map of_char s) @ replicate (m - length s) 0)"
  using assms
proof (induction s arbitrary: pre off m)
  case Nil
  then show ?case by simp
next
  case (Cons c cs)
  from Cons.prems obtain m' where m: "m = Suc m'" and l: "length cs \<le> m'"
    by (cases m) auto
  have c: "(of_char c :: nat) mod 256 = of_char c"
    by simp
  have "setUint8 off (of_char c) (pre @ replicate m 0)
        = Some ((pre @ [of_char c]) @ replicate m' 0)"
    using setBytes_zeros [of pre off "[of_char c]" m] Cons.prems m
    by (simp add: setUint8_def c)
  moreover have "writeString (Suc off) cs ((pre @ [of_char c]) @ replicate m' 0)
        = Some (((pre @ [of_char c]) @ map of_char cs) @ replicate (m' - length cs) 0)"
    using Cons.prems l by (intro Cons.IH) simp_all
  ultimately show ?case by (simp add: m)
qed

lemma writeSamples_zeros:
  assumes "length pre = 44 + i * 2" and "m = length xs * 2"
  shows "writeSamples i xs (pre @ replicate m 0) = Some (pre @ concat (map int16LE xs))"
  using assms
proof (induction xs arbitrary: pre i m)
  case Nil
  then show ?case by simp
next
  case (Cons x xs)
  have "setInt16 (44 + i * 2) x (pre @ replicate m 0)
        = Some ((pre @ int16LE x) @ replicate (length xs * 2) 0)"
    using setBytes_zeros [of pre "44 + i * 2" "int16LE x" m] Cons.prems
    by (simp add: setInt16_def length_int16LE)
  moreover have "writeSamples (Suc i) xs ((pre @ int16LE x) @ replicate (length xs * 2) 0)
        = Some ((pre @ int16LE x) @ concat (map int16LE xs))"
    using Cons.prems by (intro Cons.IH) (simp_all add: length_int16LE)
  ultimately show ?case by simp
qed

lemma setUint32_zeros:
  assumes "length pre = off" and "4 \<le> m"
  shows "setUint32 off v (pre @ replicate m 0) = Some ((pre @ uint32LE v) @ replicate (m - 4) 0)"
  using setBytes_zeros [of pre off "uint32LE v" m] assms
  by (simp add: setUint32_def length_uint32LE)

lemma setUint16_zeros:
  assumes "length pre = off" and "2 \<le> m"
  shows "setUint16 off v (pre @ replicate m 0) = Some ((pre @ uint16LE v) @ replicate (m - 2) 0)"
  using setBytes_zeros [of pre off "uint16LE v" m] assms
  by (simp add: setUint16_def length_uint16LE)

lemma convertToWav_bytes:
  "convertToWav audioData sampleRate
   = Some (map of_char ''RIFF'' @ uint32LE (36 + length audioData * 2)
           @ map of_char ''WAVE'' @ map of_char ''fmt '' @ uint32LE 16
           @ uint16LE 1 @ uint16LE 1 @ uint32LE sampleRate @ uint32LE (sampleRate * 2)
           @ uint16LE 2 @ uint16LE 16 @ map of_char ''data''
           @ uint32LE (length audioData * 2)
           @ concat (map int16LE (map toPcm audioData)))"
proof -
  define n where "n = length audioData"
  define pcm where "pcm = map toPcm audioData"
  define p1 :: bytes where "p1 = [] @ map of_char ''RIFF''"
  define p2 where "p2 = p1 @ uint32LE (36 + n * 2)"
  define p3 :: bytes where "p3 = p2 @ map of_char ''WAVE''"
  define p4 :: bytes where "p4 = p3 @ map of_char ''fmt ''"
  define p5 where "p5 = p4 @ uint32LE 16"
  define p6 where "p6 = p5 @ uint16LE 1"
  define p7 where "p7 = p6 @ uint16LE 1"
  define p8 where "p8 = p7 @ uint32LE sampleRate"
  define p9 where "p9 = p8 @ uint32LE (sampleRate * 2)"
  define p10 where "p10 = p9 @ uint16LE 2"
  define p11 where "p11 = p10 @ uint16LE 16"
  define p12 :: bytes where "p12 = p11 @ map of_char ''data''"
  define p13 where "p13 = p12 @ uint32LE (n * 2)"
  have ln: "length pcm = n" by (simp add: pcm_def n_def)
  have l1: "length p1 = 4" by (simp add: p1_def)
  have l2: "length p2 = 8" by (simp add: p2_def l1 length_uint32LE)
  have l3: "length p3 = 12" by (simp add: p3_def l2)
  have l4: "length p4 = 16" by (simp add: p4_def l3)
  have l5: "length p5 = 20" by (simp add: p5_def l4 length_uint32LE)
  have l6: "length p6 = 22" by (simp add: p6_def l5 length_uint16LE)
  have l7: "length p7 = 24" by (simp add: p7_def l6 length_uint16LE)
  have l8: "length p8 = 28" by (simp add: p8_def l7 length_uint32LE)
  have l9: "length p9 = 32" by (simp add: p9_def l8 length_uint32LE)
  have l10: "length p10 = 34" by (simp add: p10_def l9 length_uint16LE)
  have l11: "length p11 = 36" by (simp add: p11_def l10 length_uint16LE)
  have l12: "length p12 = 40" by (simp add: p12_def l11)
  have l13: "length p13 = 44" by (simp add: p13_def l12 length_uint32LE)
  have s1: "writeString 0 ''RIFF'' (replicate (44 + n * 2) 0) = Some (p1 @ replicate (40 + n * 2) 0)"
    using writeString_zeros [of "[]" 0 "''RIFF''" "44 + n * 2"] by (simp add: p1_def)
  have s2: "setUint32 4 (36 + n * 2) (p1 @ replicate (40 + n * 2) 0)
            = Some (p2 @ replicate (36 + n * 2) 0)"
    using setUint32_zeros [of p1 4 "40 + n * 2" "36 + n * 2"] by (simp add: p2_def l1)
  have s3: "writeString 8 ''WAVE'' (p2 @ replicate (36 + n * 2) 0)
            = Some (p3 @ replicate (32 + n * 2) 0)"
    using writeString_zeros [of p2 8 "''WAVE''" "36 + n * 2"] by (simp add: p3_def l2)
  have s4: "writeString 12 ''fmt '' (p3 @ replicate (32 + n * 2) 0)
            = Some (p4 @ replicate (28 + n * 2) 0)"
    using writeString_zeros [of p3 12 "''fmt ''" "32 + n * 2"] by (simp add: p4_def l3)
  have s5: "setUint32 16 16 (p4 @ replicate (28 + n * 2) 0)
            = Some (p5 @ replicate (24 + n * 2) 0)"
    using setUint32_zeros [of p4 16 "28 + n * 2" 16] by (simp add: p5_def l4)
  have s6: "setUint16 20 1 (p5 @ replicate (24 + n * 2) 0)
            = Some (p6 @ replicate (22 + n * 2) 0)"
    using setUint16_zeros [of p5 20 "24 + n * 2" 1] by (simp add: p6_def l5)
  have s7: "setUint16 22 1 (p6 @ replicate (22 + n * 2) 0)
            = Some (p7 @ replicate (20 + n * 2) 0)"
    using setUint16_zeros [of p6 22 "22 + n * 2" 1] by (simp add: p7_def l6)
  have s8: "setUint32 24 sampleRate (p7 @ replicate (20 + n * 2) 0)
            = Some (p8 @ replicate (16 + n * 2) 0)"
    using setUint32_zeros [of p7 24 "20 + n * 2" sampleRate] by (simp add: p8_def l7)
  have s9: "setUint32 28 (sampleRate * 2) (p8 @ replicate (16 + n * 2) 0)
            = Some (p9 @ replicate (12 + n * 2) 0)"
    using setUint32_zeros [of p8 28 "16 + n * 2" "sampleRate * 2"] by (simp add: p9_def l8)
  have s10: "setUint16 32 2 (p9 @ replicate (12 + n * 2) 0)
            = Some (p10 @ replicate (10 + n * 2) 0)"
    using setUint16_zeros [of p9 32 "12 + n * 2" 2] by (simp add: p10_def l9)
  have s11: "setUint16 34 16 (p10 @ replicate (10 + n * 2) 0)
            = Some (p11 @ replicate (8 + n * 2) 0)"
    using setUint16_zeros [of p10 34 "10 + n * 2" 16] by (simp add: p11_def l10)
  have s12: "writeString 36 ''data'' (p11 @ replicate (8 + n * 2) 0)
            = Some (p12 @ replicate (4 + n * 2) 0)"
    using writeString_zeros [of p11 36 "''data''" "8 + n * 2"] by (simp add: p12_def l11)
  have s13: "setUint32 40 (n * 2) (p12 @ replicate (4 + n * 2) 0)
            = Some (p13 @ replicate (n * 2) 0)"
    using setUint32_zeros [of p12 40 "4 + n * 2" "n * 2"] by (simp add: p13_def l12)
  have s14: "writeSamples 0 pcm (p13 @ replicate (n * 2) 0)
            = Some (p13 @ concat (map int16LE pcm))"
    by (rule writeSamples_zeros) (simp_all add: l13 pcm_def n_def)
  have "convertToWav audioData sampleRate = Some (p13 @ concat (map int16LE pcm))"
    unfolding convertToWav_def Let_def pcm_def [symmetric] ln
    by (simp only: s1 s2 s3 s4 s5 s6 s7 s8 s9 s10 s11 s12 s13 s14 Option.bind.simps)
  then show ?thesis
    by (simp add: p13_def p12_def p11_def p10_def p9_def p8_def p7_def p6_def p5_def p4_def
          p3_def p2_def p1_def n_def pcm_def)
qed

lemma readUint32LE_uint32LE: "readUint32LE (uint32LE v) = v mod 2 ^ 32"
proof -
  have a: "v mod (256 * 16777216) = 256 * (v div 256 mod 16777216) + v mod 256"
    by (rule mod_mult2_eq)
  have b: "v div 256 mod (256 * 65536) = 256 * (v div 256 div 256 mod 65536) + v div 256 mod 256"
    by (rule mod_mult2_eq)
  have c: "v div 65536 mod (256 * 256) = 256 * (v div 65536 div 256 mod 256) + v div 65536 mod 256"
    by (rule mod_mult2_eq)
  have d: "v div 256 div 256 = v div 65536" "v div 65536 div 256 = v div 16777216"
    by (simp_all add: div_mult2_eq [symmetric])
  from a b c d have "v mod 4294967296
        = v mod 256 + 256 * (v div 256 mod 256) + 65536 * (v div 65536 mod 256)
          + 16777216 * (v div 16777216 mod 256)"
    by simp
  then show ?thesis by (simp add: readUint32LE_def uint32LE_def)
qed

lemma wrapInt16_in_range:
  assumes "- 32768 \<le> n" and "n \<le> 32767"
  shows "wrapInt16 n = n"
  using assms by (simp add: wrapInt16_def)

lemma trunc_zero_scaled_range:
  assumes "- 1 \<le> s" and "s \<le> 1"
  shows "- 32768 \<le> trunc_zero (if s < 0 then s * 32768 else s * 32767)"
    and "trunc_zero (if s < 0 then s * 32768 else s * 32767) \<le> 32767"
proof -
  show "- 32768 \<le> trunc_zero (if s < 0 then s * 32768 else s * 32767)"
  proof (cases "s < 0")
    case True
    have "real_of_int (- 32768) \<le> s * 32768" using assms by simp
    then have "- 32768 \<le> \<lceil>s * 32768\<rceil>" by linarith
    with True show ?thesis by (simp add: trunc_zero_def mult_less_0_iff)
  next
    case False
    then have "0 \<le> s * 32767" by simp
    then have "0 \<le> \<lfloor>s * 32767\<rfloor>" by simp
    with False show ?thesis by (simp add: trunc_zero_def mult_less_0_iff)
  qed
  show "trunc_zero (if s < 0 then s * 32768 else s * 32767) \<le> 32767"
  proof (cases "s < 0")
    case True
    then have "s * 32768 \<le> 0" by simp
    then have "\<lceil>s * 32768\<rceil> \<le> 0" by (simp add: ceiling_le_iff)
    with True show ?thesis by (simp add: trunc_zero_def mult_less_0_iff)
  next
    case False
    have "s * 32767 \<le> real_of_int 32767" using assms by simp
    then have "\<lfloor>s * 32767\<rfloor> \<le> 32767" by linarith
    with False show ?thesis by (simp add: trunc_zero_def mult_less_0_iff)
  qed
qed

lemma toPcm_Num:
  "toPcm (Num r)
   = trunc_zero (let s = max (- 1) (min 1 r) in if s < 0 then s * 32768 else s * 32767)"
proof -
  define s where "s = max (- 1) (min 1 r)"
  have b: "- 1 \<le> s" "s \<le> 1" by (simp_all add: s_def)
  have e: "toPcm (Num r) = wrapInt16 (trunc_zero (if s < 0 then s * 32768 else s * 32767))"
    unfolding toPcm_def s_def
    by (simp only: math_min_1.simps math_max_neg1.simps scale.simps toInt16.simps)
  have w: "wrapInt16 (trunc_zero (if s < 0 then s * 32768 else s * 32767))
        = trunc_zero (if s < 0 then s * 32768 else s * 32767)"
    by (intro wrapInt16_in_range trunc_zero_scaled_range b)
  show ?thesis
    unfolding Let_def s_def [symmetric] e w by (rule refl)
qed

lemma toPcm_range: "- 32768 \<le> toPcm x \<and> toPcm x \<le> 32767"
proof (cases x)
  case (Num r)
  define s where "s = max (- 1) (min 1 r)"
  have b: "- 1 \<le> s" "s \<le> 1" by (simp_all add: s_def)
  show ?thesis
    unfolding Num toPcm_Num Let_def s_def [symmetric]
    using trunc_zero_scaled_range [OF b] by blast
next
  case PosInfinity
  then show ?thesis by (simp add: toPcm_def trunc_zero_def wrapInt16_def)
next
  case NegInfinity
  then show ?thesis by (simp add: toPcm_def trunc_zero_def wrapInt16_def)
next
  case NaN
  then show ?thesis by (simp add: toPcm_def)
qed

lemma readInt16LE_int16LE:
  assumes "- 32768 \<le> v" and "v \<le> 32767"
  shows "readInt16LE (int16LE v) = v"
proof -
  define u where "u = nat (v mod 65536)"
  have u: "u < 65536" by (simp add: u_def)
  have r: "readUint16LE (uint16LE u) = u"
  proof -
    have "u div 256 < 256" using u by simp
    then have "u div 256 mod 256 = u div 256" by simp
    then show ?thesis by (simp add: readUint16LE_def uint16LE_def)
  qed
  have iu: "int u = v mod 65536" by (simp add: u_def)
  have m: "v mod 65536 = (if 0 \<le> v then v else v + 65536)"
  proof (cases "0 \<le> v")
    case True
    with assms show ?thesis by simp
  next
    case False
    have "(v + 65536) mod 65536 = v + 65536"
      using assms False by (intro mod_pos_pos_trivial) simp_all
    moreover have "(v + 65536) mod 65536 = v mod 65536" by simp
    ultimately show ?thesis using False by simp
  qed
  from iu m have "int u = (if 0 \<le> v then v else v + 65536)" by simp
  then show ?thesis
    using assms by (simp add: readInt16LE_def int16LE_def u_def [symmetric] r Let_def)
qed

lemma readUint16LE_uint16LE: "readUint16LE (uint16LE v) = v mod 2 ^ 16"
proof -
  have "v mod (256 * 256) = 256 * (v div 256 mod 256) + v mod 256"
    by (rule mod_mult2_eq)
  then show ?thesis by (simp add: readUint16LE_def uint16LE_def)
qed

text \<open>
  Claim C7. For every sample array, \<open>convertToWav\<close> at 16000 Hz returns (no write leaves
  the buffer) 44 header bytes followed by the samples. The header is \<open>RIFF\<close>, the chunk
  size 36 + 2n, \<open>WAVE\<close>, \<open>fmt \<close>, the sub-chunk size 16, format tag 1 (PCM), 1 channel,
  the sample rate 16000, the byte rate 32000, block align 2, 16 bits per sample, \<open>data\<close>
  and the data size 2n, every number little-endian; the size fields read back as written
  while 36 + 2n is below \<open>2^32\<close>. Each sample is clamped to [-1, 1], scaled by 32768 when
  negative and by 32767 otherwise, and truncated; the result lies in [-32768, 32767], so
  storing it as a 16-bit integer loses nothing and its two little-endian bytes read back
  as the same value. NaN gives 0 and the infinities give the two ends of the range.
\<close>

theorem convertToWav_format:
  "convertToWav audioData SAMPLE_RATE
     = Some ((map of_char ''RIFF'' @ uint32LE (36 + length audioData * 2)
              @ map of_char ''WAVE'' @ map of_char ''fmt '' @ uint32LE 16
              @ uint16LE 1 @ uint16LE 1 @ uint32LE 16000 @ uint32LE 32000
              @ uint16LE 2 @ uint16LE 16 @ map of_char ''data''
              @ uint32LE (length audioData * 2))
             @ concat (map (\<lambda>x. int16LE (toPcm x)) audioData))
   \<and> length (map of_char ''RIFF'' @ uint32LE (36 + length audioData * 2)
              @ map of_char ''WAVE'' @ map of_char ''fmt '' @ uint32LE 16
              @ uint16LE 1 @ uint16LE 1 @ uint32LE 16000 @ uint32LE 32000
              @ uint16LE 2 @ uint16LE 16 @ map of_char ''data''
              @ uint32LE (length audioData * 2) :: bytes) = 44
   \<and> readUint32LE (uint32LE v) = v mod 2 ^ 32
   \<and> readUint16LE (uint16LE w) = w mod 2 ^ 16
   \<and> (36 + length audioData * 2 < 2 ^ 32 \<longrightarrow>
        readUint32LE (uint32LE (36 + length audioData * 2)) = 36 + length audioData * 2
        \<and> readUint32LE (uint32LE (length audioData * 2)) = length audioData * 2)
   \<and> - 32768 \<le> toPcm x \<and> toPcm x \<le> 32767
   \<and> readInt16LE (int16LE (toPcm x)) = toPcm x
   \<and> toPcm (Num r)
       = trunc_zero (let s = max (- 1) (min 1 r) in if s < 0 then s * 32768 else s * 32767)
   \<and> toPcm NaN = 0 \<and> toPcm PosInfinity = 32767 \<and> toPcm NegInfinity = - 32768"
proof (intro conjI impI)
  show "convertToWav audioData SAMPLE_RATE
     = Some ((map of_char ''RIFF'' @ uint32LE (36 + length audioData * 2)
              @ map of_char ''WAVE'' @ map of_char ''fmt '' @ uint32LE 16
              @ uint16LE 1 @ uint16LE 1 @ uint32LE 16000 @ uint32LE 32000
              @ uint16LE 2 @ uint16LE 16 @ map of_char ''data''
              @ uint32LE (length audioData * 2))
             @ concat (map (\<lambda>x. int16LE (toPcm x)) audioData))"
    by (simp add: convertToWav_bytes SAMPLE_RATE_def comp_def)
  show "length (map of_char ''RIFF'' @ uint32LE (36 + length audioData * 2)
              @ map of_char ''WAVE'' @ map of_char ''fmt '' @ uint32LE 16
              @ uint16LE 1 @ uint16LE 1 @ uint32LE 16000 @ uint32LE 32000
              @ uint16LE 2 @ uint16LE 16 @ map of_char ''data''
              @ uint32LE (length audioData * 2) :: bytes) = 44"
    by (simp add: length_uint32LE length_uint16LE)
  show "readUint32LE (uint32LE v) = v mod 2 ^ 32"
    by (rule readUint32LE_uint32LE)
  show "readUint16LE (uint16LE w) = w mod 2 ^ 16"
    by (rule readUint16LE_uint16LE)
  show "- 32768 \<le> toPcm x" "toPcm x \<le> 32767"
    using toPcm_range [of x] by simp_all
  then show "readInt16LE (int16LE (toPcm x)) = toPcm x"
    by (rule readInt16LE_int16LE)
  show "toPcm (Num r)
       = trunc_zero (let s = max (- 1) (min 1 r) in if s < 0 then s * 32768 else s * 32767)"
    by (rule toPcm_Num)
  show "toPcm NaN = 0" by (simp add: toPcm_def)
  show "toPcm PosInfinity = 32767" by (simp add: toPcm_def trunc_zero_def wrapInt16_def)
  show "toPcm NegInfinity = - 32768" by (simp add: toPcm_def trunc_zero_def wrapInt16_def)
next
  assume h: "36 + length audioData * 2 < 2 ^ 32"
  then show "readUint32LE (uint32LE (36 + length audioData * 2)) = 36 + length audioData * 2"
    by (simp add: readUint32LE_uint32LE)
  from h show "readUint32LE (uint32LE (length audioData * 2)) = length audioData * 2"
    by (simp add: readUint32LE_uint32LE)
qed

theorem convertToWav_format_witness:
  "36 + length five_samples * 2 < (2 :: nat) ^ 32
   \<and> convertToWav five_samples SAMPLE_RATE
       = Some [82, 73, 70, 70, 46, 0, 0, 0, 87, 65, 86, 69, 102, 109, 116, 32,
               16, 0, 0, 0, 1, 0, 1, 0, 128, 62, 0, 0, 0, 125, 0, 0, 2, 0, 16, 0,
               100, 97, 116, 97, 10, 0, 0, 0,
               255, 127, 0, 128, 255, 63, 0, 0, 255, 127]
   \<and> readUint32LE (uint32LE (36 + length five_samples * 2)) = 46
   \<and> toPcm (Num (1 / 2)) = 16383 \<and> toPcm (Num 3) = 32767"
proof -
  have h: "36 + length five_samples * 2 < (2 :: nat) ^ 32"
    by (simp add: five_samples_def)
  have p: "map (\<lambda>x. int16LE (toPcm x)) five_samples
           = [[255, 127], [0, 128], [255, 63], [0, 0], [255, 127]]"
    by (simp add: five_samples_def toPcm_def trunc_zero_def wrapInt16_def int16LE_def
          uint16LE_def)
  have q: "toPcm (Num (1 / 2)) = 16383" "toPcm (Num 3) = 32767"
    by (simp_all add: toPcm_def trunc_zero_def wrapInt16_def)
  have l: "length five_samples = 5" by (simp add: five_samples_def)
  note t = convertToWav_format [of five_samples 0 0 NaN 0]
  from t have "convertToWav five_samples SAMPLE_RATE
       = Some [82, 73, 70, 70, 46, 0, 0, 0, 87, 65, 86, 69, 102, 109, 116, 32,
               16, 0, 0, 0, 1, 0, 1, 0, 128, 62, 0, 0, 0, 125, 0, 0, 2, 0, 16, 0,
               100, 97, 116, 97, 10, 0, 0, 0,
               255, 127, 0, 128, 255, 63, 0, 0, 255, 127]"
    by (simp add: p l uint32LE_def uint16LE_def)
  moreover from t h have "readUint32LE (uint32LE (36 + length five_samples * 2)) = 46"
    by (simp add: l)
  ultimately show ?thesis using h q by blast
qed

subsection \<open>The in-flight guard of the audio stream\<close>

lemma convertToWav_total: "\<exists>wav. convertToWav d r = Some wav"
  by (simp add: convertToWav_bytes)

lemma stream_step_skips:
  "isProcessing s \<Longrightarrow> stream_step s (AudioProcess d) = s"
  by simp

lemma stream_skips_all:
  "isProcessing s \<Longrightarrow> foldl stream_step s (map AudioProcess ds) = s"
  by (induction ds) simp_all

lemma stream_inv_step:
  assumes "stream_inv s"
  shows "stream_inv (stream_step s e)"
proof (cases e)
  case (AudioProcess d)
  obtain wav where "convertToWav d SAMPLE_RATE = Some wav"
    using convertToWav_total by blast
  with assms show ?thesis
    by (auto simp: AudioProcess stream_inv_def Let_def split: if_splits)
next
  case (TranscribeResolved transcript)
  with assms show ?thesis
    by (cases "inFlight s") (auto simp: stream_inv_def split: if_splits)
next
  case TranscribeRejected
  with assms show ?thesis
    by (cases "inFlight s") (auto simp: stream_inv_def split: if_splits)
qed

lemma stream_inv_foldl:
  "stream_inv s \<Longrightarrow> stream_inv (foldl stream_step s evs)"
  by (induction evs arbitrary: s) (simp_all add: stream_inv_step)

lemma stream_inv_run: "stream_inv (stream_run evs)"
  unfolding stream_run_def
  by (rule stream_inv_foldl) (simp add: stream_inv_def stream_init_def)

lemma stream_run_snoc: "stream_run (evs @ es) = foldl stream_step (stream_run evs) es"
  by (simp add: stream_run_def)

lemma stream_step_buffers:
  assumes "\<not> isProcessing s" and "convertToWav d SAMPLE_RATE = Some wav"
  shows "audioChunks (stream_step s (AudioProcess d)) = audioChunks s @ [wav]"
  using assms by (simp add: Let_def)

lemma two_buffers_run:
  "isProcessing (stream_run two_buffers)"
  "length (audioChunks (stream_run two_buffers)) = 2"
  "length (inFlight (stream_run two_buffers)) = 1"
  by (simp_all add: two_buffers_def stream_run_def stream_init_def convertToWav_bytes Let_def)

text \<open>
  Claim C4, as the code has it. After any sequence of events at most one transcription
  request is in flight, and the flag \<open>isProcessing\<close> is set exactly while one is. A buffer
  that arrives while the flag is set is skipped entirely: any number of them leave the
  state as it was, so nothing is queued for them. The flag is cleared when the request
  settles, by success and by failure alike, and the next buffer is then processed: after
  a failure it is appended to the chunks kept, after a success it starts a new list. The
  flag is cleared by nothing else: while the request has not settled, and for good if it
  never does, every later buffer is dropped.
\<close>

theorem stream_in_flight_guard:
  "length (inFlight (stream_run evs)) \<le> 1
   \<and> isProcessing (stream_run evs) = (inFlight (stream_run evs) \<noteq> [])
   \<and> (isProcessing (stream_run evs) \<longrightarrow>
        stream_run (evs @ map AudioProcess ds) = stream_run evs
        \<and> \<not> isProcessing (stream_run (evs @ [TranscribeResolved transcript]))
        \<and> \<not> isProcessing (stream_run (evs @ [TranscribeRejected]))
        \<and> (\<exists>wav. convertToWav d SAMPLE_RATE = Some wav
             \<and> audioChunks (stream_run (evs @ [TranscribeRejected, AudioProcess d]))
                 = audioChunks (stream_run evs) @ [wav]
             \<and> audioChunks (stream_run (evs @ [TranscribeResolved transcript, AudioProcess d]))
                 = [wav]))
   \<and> (\<not> isProcessing (stream_run evs) \<longrightarrow>
        (\<exists>wav. convertToWav d SAMPLE_RATE = Some wav
           \<and> audioChunks (stream_run (evs @ [AudioProcess d]))
               = audioChunks (stream_run evs) @ [wav]))"
proof -
  define s where "s = stream_run evs"
  have inv: "stream_inv s" unfolding s_def by (rule stream_inv_run)
  obtain wav where wav: "convertToWav d SAMPLE_RATE = Some wav"
    using convertToWav_total by blast
  have a: "length (inFlight s) \<le> 1" "isProcessing s = (inFlight s \<noteq> [])"
    using inv by (auto simp: stream_inv_def split: if_splits)
  have b: "stream_run (evs @ map AudioProcess ds) = s" if "isProcessing s"
    using that by (simp add: stream_run_snoc s_def stream_skips_all)
  have c: "\<not> isProcessing (stream_run (evs @ [TranscribeResolved transcript]))"
    "\<not> isProcessing (stream_run (evs @ [TranscribeRejected]))" if "isProcessing s"
    using that a by (cases "inFlight s"; simp add: stream_run_snoc s_def [symmetric])+
  have d1: "audioChunks (stream_run (evs @ [TranscribeRejected, AudioProcess d]))
            = audioChunks s @ [wav]" if "isProcessing s"
    using that a wav
    by (cases "inFlight s") (simp_all add: stream_run_snoc s_def [symmetric] Let_def)
  have d2: "audioChunks (stream_run (evs @ [TranscribeResolved transcript, AudioProcess d])) = [wav]"
    if "isProcessing s"
    using that a wav
    by (cases "inFlight s") (simp_all add: stream_run_snoc s_def [symmetric] Let_def)
  have e: "audioChunks (stream_run (evs @ [AudioProcess d])) = audioChunks s @ [wav]"
    if "\<not> isProcessing s"
    using that wav by (simp add: stream_run_snoc s_def [symmetric] Let_def)
  from a b c d1 d2 e wav show ?thesis
    unfolding s_def [symmetric] by blast
qed

theorem stream_in_flight_guard_witness:
  "isProcessing (stream_run two_buffers)
   \<and> \<not> isProcessing (stream_run [])
   \<and> length (inFlight (stream_run two_buffers)) = 1
   \<and> stream_run (two_buffers @ map AudioProcess later_buffers) = stream_run two_buffers
   \<and> \<not> isProcessing (stream_run (two_buffers @ [TranscribeRejected]))
   \<and> \<not> isProcessing (stream_run (two_buffers @ [TranscribeResolved ''Play '']))
   \<and> length (audioChunks (stream_run (two_buffers @ [TranscribeRejected, AudioProcess [NaN]])))
       = 3
   \<and> length (audioChunks (stream_run
         (two_buffers @ [TranscribeResolved ''Play '', AudioProcess [NaN]]))) = 1
   \<and> length (audioChunks (stream_run ([] @ [AudioProcess [NaN]]))) = 1"
proof -
  note p = two_buffers_run
  have i: "\<not> isProcessing (stream_run [])"
    by (simp add: stream_run_def stream_init_def)
  have z: "audioChunks (stream_run []) = []"
    by (simp add: stream_run_def stream_init_def)
  note t = stream_in_flight_guard [of two_buffers later_buffers "''Play ''" "[NaN]"]
  note u = stream_in_flight_guard [of "[]" later_buffers "''Play ''" "[NaN]"]
  from t p(1) have a: "stream_run (two_buffers @ map AudioProcess later_buffers)
      = stream_run two_buffers"
    and b: "\<not> isProcessing (stream_run (two_buffers @ [TranscribeRejected]))"
    and c: "\<not> isProcessing (stream_run (two_buffers @ [TranscribeResolved ''Play '']))"
    by blast+
  from t p(1) obtain wav where
    "audioChunks (stream_run (two_buffers @ [TranscribeRejected, AudioProcess [NaN]]))
       = audioChunks (stream_run two_buffers) @ [wav]"
    "audioChunks (stream_run (two_buffers @ [TranscribeResolved ''Play '', AudioProcess [NaN]]))
       = [wav]"
    by blast
  with p(2) have d: "length (audioChunks (stream_run
        (two_buffers @ [TranscribeRejected, AudioProcess [NaN]]))) = 3"
    and e: "length (audioChunks (stream_run
        (two_buffers @ [TranscribeResolved ''Play '', AudioProcess [NaN]]))) = 1"
    by simp_all
  from u i obtain wav' where
    "audioChunks (stream_run ([] @ [AudioProcess [NaN]])) = audioChunks (stream_run []) @ [wav']"
    by blast
  with z have f: "length (audioChunks (stream_run ([] @ [AudioProcess [NaN]]))) = 1"
    by simp
  from p i a b c d e f show ?thesis by blast
qed

text \<open>
  Claim C4 as stated fails for a submission that hangs: with the second buffer a request
  is in flight, and the two buffers that arrive before it settles are not processed; the
  state stays the one after the second buffer, with two chunks.
\<close>

theorem hung_submission_blocks_later_chunks_counterexample:
  "isProcessing (stream_run two_buffers)
   \<and> length (inFlight (stream_run two_buffers)) = 1
   \<and> stream_run (two_buffers @ [AudioProcess [Num (1 / 4)], AudioProcess [NaN, Num 0]])
       = stream_run two_buffers
   \<and> length (audioChunks
        (stream_run (two_buffers @ [AudioProcess [Num (1 / 4)], AudioProcess [NaN, Num 0]])))
       = 2"
  by (simp add: two_buffers_def stream_run_def stream_init_def convertToWav_bytes Let_def)

end
